theory Spec2Isabelle
  imports Complex_Main "HOL-Library.Multiset"
begin

text \<open>
  A model of the M-tree of \<^verbatim>\<open>Laboratorio 5/M-Tree/functions.h\<close> (the file holds both
  \<^verbatim>\<open>functions.h\<close> and \<^verbatim>\<open>mtree.h\<close>). Data objects are values of a linearly ordered
  type \<open>'a\<close> (the order of \<open>std::less\<close>). Distances are values of a type \<open>'r\<close> with a
  linear order and the operations that the code applies to a \<open>double\<close>: addition,
  subtraction, negation, the absolute value, 0 and 1. The definitions assume no law of
  arithmetic, so that what is proved for every such type holds both for exact numbers
  (the instances below use the reals) and for an arithmetic whose sums and differences
  are rounded. Infinite and not-a-number distances are outside the model, except for the
  places where the code itself stores \<open>numeric_limits<double>::infinity()\<close>, which use
  the type \<open>'r ext\<close>. The debugging assertions of the code are not executed by the model.
\<close>

chapter \<open>Definitions\<close>

section \<open>The cached distance function (class cached\_distance\_function)\<close>

text \<open>
  The cache is a \<open>std::map\<close> from ordered pairs of data objects to distances.
  \<open>std::map::insert\<close> leaves an entry that is already present untouched.
\<close>

type_synonym ('a, 'r) CacheType = "('a \<times> 'a) \<rightharpoonup> 'r"

definition cache_insert :: "('a, 'r) CacheType \<Rightarrow> 'a \<times> 'a \<Rightarrow> 'r \<Rightarrow> ('a, 'r) CacheType" where
  "cache_insert cache k v = (case cache k of Some _ \<Rightarrow> cache | None \<Rightarrow> cache(k \<mapsto> v))"

text \<open>
  \<open>operator()\<close> of the cached distance function. The call returns the distance and the
  updated cache; the third component lists the argument pairs with which the underlying
  distance function has been invoked during this call (one pair on a miss, none on a hit).
\<close>

definition cached_distance_function ::
  "('a \<Rightarrow> 'a \<Rightarrow> 'r) \<Rightarrow> ('a, 'r) CacheType \<Rightarrow> 'a \<Rightarrow> 'a
     \<Rightarrow> 'r \<times> ('a, 'r) CacheType \<times> ('a \<times> 'a) list" where
  "cached_distance_function distance_function cache data1 data2 =
     (case cache (data1, data2) of
        Some v \<Rightarrow> (v, cache, [])
      | None \<Rightarrow>
         (case cache (data2, data1) of
            Some v \<Rightarrow> (v, cache, [])
          | None \<Rightarrow>
             (let distance = distance_function data1 data2;
                  cache1 = cache_insert cache (data1, data2) distance;
                  cache2 = cache_insert cache1 (data2, data1) distance
              in (distance, cache2, [(data1, data2)]))))"

text \<open>
  A sequence of calls on one cached distance function object: the returned distances in
  call order, the final cache and the trace of all invocations of the underlying function.
\<close>

fun call_sequence ::
  "('a \<Rightarrow> 'a \<Rightarrow> 'r) \<Rightarrow> ('a, 'r) CacheType \<Rightarrow> ('a \<times> 'a) list
     \<Rightarrow> 'r list \<times> ('a, 'r) CacheType \<times> ('a \<times> 'a) list" where
  "call_sequence d cache [] = ([], cache, [])"
| "call_sequence d cache (call # calls) =
     (case cached_distance_function d cache (fst call) (snd call) of
        (v, cache', invoked) \<Rightarrow>
          (case call_sequence d cache' calls of
             (vs, cache'', invoked') \<Rightarrow> (v # vs, cache'', invoked @ invoked')))"

definition unordered :: "'a \<times> 'a \<Rightarrow> 'a set" where
  "unordered p = {fst p, snd p}"


section \<open>Promotion and partition (random\_promotion, balanced\_partition, split\_function)\<close>

text \<open>
  \<open>random_promotion\<close> calls the library routine \<open>random_sample_n\<close> for two elements of
  the set. The routine, which is not part of this repository, copies a random sample of
  the requested size and keeps the relative order of the input; its outcome is the
  parameter \<open>sample\<close>, which gives the two positions it picks in the sorted population.
  The result is \<open>None\<close> where the source reads \<open>promoted[1]\<close> of a shorter vector.
\<close>

definition random_promotion ::
  "('a list \<Rightarrow> nat \<times> nat) \<Rightarrow> 'a::linorder set \<Rightarrow> ('a \<Rightarrow> 'a \<Rightarrow> 'r) \<Rightarrow> ('a \<times> 'a) option" where
  "random_promotion sample data_objects d =
     (let population = sorted_list_of_set data_objects;
          (i, j) = sample population
      in if i < j \<and> j < length population then Some (population ! i, population ! j) else None)"

text \<open>
  The comparator of each \<open>std::sort\<close> in \<open>balanced_partition\<close> asks the cached distance
  function for the distance of each object to one promoted object. \<open>cached_keys\<close> makes
  these calls, threading the cache, and pairs every object with its sort key.
\<close>

fun cached_keys ::
  "('a \<Rightarrow> 'a \<Rightarrow> 'r) \<Rightarrow> ('a, 'r) CacheType \<Rightarrow> 'a \<Rightarrow> 'a list
     \<Rightarrow> ('a \<times> 'r) list \<times> ('a, 'r) CacheType" where
  "cached_keys d cache p [] = ([], cache)"
| "cached_keys d cache p (x # xs) =
     (case cached_distance_function d cache x p of
        (v, cache', _) \<Rightarrow>
          (case cached_keys d cache' p xs of (kvs, cache'') \<Rightarrow> ((x, v) # kvs, cache'')))"

text \<open>
  One inner \<open>while\<close> loop of \<open>balanced_partition\<close>: advance the iterator of a queue
  up to and including the first object that is not in the other partition, and insert
  that object into the own partition.
\<close>

fun take_unassigned :: "'a list \<Rightarrow> 'a set \<Rightarrow> 'a set \<Rightarrow> 'a list \<times> 'a set" where
  "take_unassigned [] other own = ([], own)"
| "take_unassigned (x # queue) other own =
     (if x \<notin> other then (queue, insert x own) else take_unassigned queue other own)"

lemma take_unassigned_length:
  "(queue', own') = take_unassigned queue other own \<Longrightarrow> length queue' \<le> length queue"
  by (induction queue) (auto split: if_splits)

lemma take_unassigned_length_less:
  "(queue', own') = take_unassigned queue other own \<Longrightarrow> queue \<noteq> [] \<Longrightarrow> length queue' < length queue"
  using take_unassigned_length[of queue' own' "tl queue" other own]
  by (cases queue) (auto simp: less_Suc_eq_le split: if_splits)

lemma partition_loop_measure:
  assumes "\<not> (queue1 = [] \<and> queue2 = [])"
    and "(queue1', P1') = take_unassigned queue1 P2 P1"
    and "(queue2', P2') = take_unassigned queue2 P1' P2"
  shows "length queue1' + length queue2' < length queue1 + length queue2"
proof (cases "queue1 = []")
  case True
  with assms(1) have "queue2 \<noteq> []" by simp
  with assms(3) have "length queue2' < length queue2" by (rule take_unassigned_length_less)
  moreover from assms(2) have "length queue1' \<le> length queue1" by (rule take_unassigned_length)
  ultimately show ?thesis by simp
next
  case False
  with assms(2) have "length queue1' < length queue1" by (rule take_unassigned_length_less)
  moreover from assms(3) have "length queue2' \<le> length queue2" by (rule take_unassigned_length)
  ultimately show ?thesis by simp
qed

text \<open>The outer \<open>while\<close> loop of \<open>balanced_partition\<close>.\<close>

function partition_loop :: "'a list \<Rightarrow> 'a list \<Rightarrow> 'a set \<Rightarrow> 'a set \<Rightarrow> 'a set \<times> 'a set" where
  "partition_loop queue1 queue2 first_partition second_partition =
     (if queue1 = [] \<and> queue2 = [] then (first_partition, second_partition)
      else
        (case take_unassigned queue1 second_partition first_partition of
           (queue1', first_partition') \<Rightarrow>
             (case take_unassigned queue2 first_partition' second_partition of
                (queue2', second_partition') \<Rightarrow>
                   partition_loop queue1' queue2' first_partition' second_partition')))"
  by pat_completeness auto
termination
proof (relation "measure (\<lambda>(q1, q2, _, _). length q1 + length q2)", goal_cases)
  case 1
  show ?case by simp
next
  case 2
  then show ?case using partition_loop_measure by fastforce
qed

declare partition_loop.simps [simp del]

text \<open>
  \<open>balanced_partition\<close>. The order in which \<open>std::sort\<close> leaves objects of equal
  distance is not fixed by the language, so the sorting routine is a parameter
  \<open>sorter\<close>, applied to the objects paired with their keys; \<open>balanced_partition\<close>
  itself uses the stable insertion sort of the list library, which leaves objects of
  equal distance in the order of the set (the usual \<open>std::sort\<close> is such an insertion
  sort for short vectors, and need not be stable for long ones).
\<close>

definition balanced_partition_with ::
  "(('a \<times> 'r) list \<Rightarrow> ('a \<times> 'r) list) \<Rightarrow> 'a \<times> 'a \<Rightarrow> 'a::linorder set \<Rightarrow> 'a set
     \<Rightarrow> ('a \<Rightarrow> 'a \<Rightarrow> 'r) \<Rightarrow> ('a, 'r) CacheType \<Rightarrow> ('a set \<times> 'a set) \<times> ('a, 'r) CacheType" where
  "balanced_partition_with sorter promoted first_partition second_partition d cache =
     (let objects = sorted_list_of_set first_partition;
          (keyed1, cache1) = cached_keys d cache (fst promoted) objects;
          queue1 = map fst (sorter keyed1);
          (keyed2, cache2) = cached_keys d cache1 (snd promoted) objects;
          queue2 = map fst (sorter keyed2)
      in (partition_loop queue1 queue2 {} second_partition, cache2))"

definition balanced_partition ::
  "'a \<times> 'a \<Rightarrow> 'a::linorder set \<Rightarrow> 'a set
     \<Rightarrow> ('a \<Rightarrow> 'a \<Rightarrow> 'r::linorder) \<Rightarrow> ('a, 'r) CacheType \<Rightarrow> ('a set \<times> 'a set) \<times> ('a, 'r) CacheType" where
  "balanced_partition = balanced_partition_with (sort_key snd)"

text \<open>
  \<open>split_function::operator()\<close>: promote, then partition. The two partitions are
  returned instead of being written through the reference arguments.
\<close>

definition split_function ::
  "('a set \<Rightarrow> ('a \<Rightarrow> 'a \<Rightarrow> 'r) \<Rightarrow> ('a \<times> 'a) option)
   \<Rightarrow> ('a \<times> 'a \<Rightarrow> 'a set \<Rightarrow> 'a set \<Rightarrow> ('a \<Rightarrow> 'a \<Rightarrow> 'r) \<Rightarrow> ('a, 'r) CacheType
         \<Rightarrow> ('a set \<times> 'a set) \<times> ('a, 'r) CacheType)
   \<Rightarrow> 'a set \<Rightarrow> 'a set \<Rightarrow> ('a \<Rightarrow> 'a \<Rightarrow> 'r) \<Rightarrow> ('a, 'r) CacheType
   \<Rightarrow> (('a \<times> 'a) \<times> ('a set \<times> 'a set) \<times> ('a, 'r) CacheType) option" where
  "split_function promotion_function partition_function first_partition second_partition d cache =
     (case promotion_function first_partition d of
        None \<Rightarrow> None
      | Some promoted \<Rightarrow>
          (case partition_function promoted first_partition second_partition d cache of
             (partitions, cache') \<Rightarrow> Some (promoted, partitions, cache')))"

section \<open>Index items (classes IndexItem, Node, Entry)\<close>

text \<open>
  The four concrete node classes are combinations of the traits RootNodeTrait or
  NonRootNodeTrait with LeafNodeTrait or NonLeafNodeTrait; the class of an object decides
  which virtual method is called.
\<close>

datatype NodeClass = RootLeafNode | RootNode | InternalNode | LeafNode

text \<open>
  An index item is an entry or a node. The children map \<open>std::map<Data, IndexItem*>\<close> of
  a node is the list of its children in key order. Every child is stored under its own
  \<open>data\<close> (\<open>children[child->data] = child\<close>), so the key of a child is its \<open>data\<close> field.
  A node owns its children and no item is shared, hence children are values.
\<close>

datatype ('a, 'r) IndexItem =
    Entry (data: 'a) (radius: 'r) (distanceToParent: 'r)
  | Node (node_class: NodeClass) (data: 'a) (radius: 'r) (distanceToParent: 'r)
         (children: "('a, 'r) IndexItem list")
  where "children (Entry d r p) = []"

fun set_radius :: "'r \<Rightarrow> ('a, 'r) IndexItem \<Rightarrow> ('a, 'r) IndexItem" where
  "set_radius r (Entry d _ p) = Entry d r p"
| "set_radius r (Node c d _ p cs) = Node c d r p cs"

fun set_distanceToParent :: "'r \<Rightarrow> ('a, 'r) IndexItem \<Rightarrow> ('a, 'r) IndexItem" where
  "set_distanceToParent p (Entry d r _) = Entry d r p"
| "set_distanceToParent p (Node c d r _ cs) = Node c d r p cs"

fun set_children :: "('a, 'r) IndexItem list \<Rightarrow> ('a, 'r) IndexItem \<Rightarrow> ('a, 'r) IndexItem" where
  "set_children cs (Entry d r p) = Entry d r p"
| "set_children cs (Node c d r p _) = Node c d r p cs"

text \<open>\<open>dynamic_cast<Entry*>\<close> succeeds on entries, \<open>dynamic_cast<Node*>\<close> on nodes.\<close>

fun is_Entry :: "('a, 'r) IndexItem \<Rightarrow> bool" where
  "is_Entry (Entry _ _ _) = True"
| "is_Entry (Node _ _ _ _ _) = False"

text \<open>The constructor \<open>IndexItem(data)\<close> sets the radius to 0 and the distance to the parent to -1.\<close>

definition new_Entry :: "'a \<Rightarrow> ('a, 'r::{linorder,zero,one,plus,minus,uminus,abs}) IndexItem" where
  "new_Entry d = Entry d 0 (- 1)"

definition new_Node :: "NodeClass \<Rightarrow> 'a \<Rightarrow> ('a, 'r::{linorder,zero,one,plus,minus,uminus,abs}) IndexItem" where
  "new_Node c d = Node c d 0 (- 1) []"

text \<open>\<open>children.find(k)\<close>, \<open>children[c->data] = c\<close> and \<open>children.erase(k)\<close>.\<close>

fun map_find :: "'a \<Rightarrow> ('a, 'r) IndexItem list \<Rightarrow> ('a, 'r) IndexItem option" where
  "map_find k [] = None"
| "map_find k (c # cs) = (if data c = k then Some c else map_find k cs)"

fun map_store :: "('a::linorder, 'r) IndexItem \<Rightarrow> ('a, 'r) IndexItem list \<Rightarrow> ('a, 'r) IndexItem list" where
  "map_store c [] = [c]"
| "map_store c (x # xs) =
     (if data c < data x then c # x # xs
      else if data c = data x then c # xs
      else x # map_store c xs)"

definition map_erase :: "'a \<Rightarrow> ('a, 'r) IndexItem list \<Rightarrow> ('a, 'r) IndexItem list" where
  "map_erase k cs = filter (\<lambda>c. data c \<noteq> k) cs"

definition is_leaf_class :: "NodeClass \<Rightarrow> bool" where
  "is_leaf_class c = (c = RootLeafNode \<or> c = LeafNode)"

section \<open>The tree (class mtree)\<close>

text \<open>
  The member \<open>split_function\<close> of the tree is the field \<open>split_fn\<close>. It is applied to the
  two partitions, the underlying distance function and the cache of a fresh cached
  distance function, and returns the promoted pair, the two partitions and the cache.
\<close>

record ('a, 'r) mtree =
  minNodeCapacity :: nat
  maxNodeCapacity :: nat
  root :: "('a, 'r) IndexItem option"
  distance_function :: "'a \<Rightarrow> 'a \<Rightarrow> 'r"
  split_fn :: "'a set \<Rightarrow> 'a set \<Rightarrow> ('a \<Rightarrow> 'a \<Rightarrow> 'r) \<Rightarrow> ('a, 'r) CacheType
     \<Rightarrow> (('a \<times> 'a) \<times> ('a set \<times> 'a set) \<times> ('a, 'r) CacheType) option"

text \<open>
  The constructor. Capacities are \<open>size_t\<close> values, taken as 64 bits wide; when
  \<open>max_node_capacity\<close> is \<open>size_t(-1)\<close> the maximum is \<open>2 * min_node_capacity - 1\<close>,
  computed modulo \<open>2 ^ 64\<close>.
\<close>

definition SIZE_MAX :: nat where
  "SIZE_MAX = 2 ^ 64 - 1"

definition mtree_init ::
  "nat \<Rightarrow> nat \<Rightarrow> ('a \<Rightarrow> 'a \<Rightarrow> 'r)
     \<Rightarrow> ('a set \<Rightarrow> 'a set \<Rightarrow> ('a \<Rightarrow> 'a \<Rightarrow> 'r) \<Rightarrow> ('a, 'r) CacheType
            \<Rightarrow> (('a \<times> 'a) \<times> ('a set \<times> 'a set) \<times> ('a, 'r) CacheType) option)
     \<Rightarrow> ('a, 'r) mtree" where
  "mtree_init min_node_capacity max_node_capacity d sf =
     \<lparr> minNodeCapacity = min_node_capacity,
       maxNodeCapacity =
         (if max_node_capacity = SIZE_MAX then (2 * min_node_capacity + SIZE_MAX) mod (SIZE_MAX + 1)
          else max_node_capacity),
       root = None, distance_function = d, split_fn = sf \<rparr>"

text \<open>
  The same constructor with the comparison against \<open>size_t(-1)\<close> carried out on integers,
  for evaluation.
\<close>

lemma size_max_int: "int SIZE_MAX = 2 ^ 64 - 1"
proof -
  define M :: nat where "M = 2 ^ 64"
  have pos: "0 < M" unfolding M_def by simp
  have iM: "int M = 2 ^ 64" unfolding M_def by simp
  have "int (M - 1) = int M - 1" using pos by (simp add: of_nat_diff)
  thus ?thesis unfolding SIZE_MAX_def M_def[symmetric] iM[symmetric] .
qed

lemma size_max_succ: "int (SIZE_MAX + 1) = 2 ^ 64"
  using size_max_int by (simp del: of_nat_add add: of_nat_add[of SIZE_MAX 1])

lemma size_max_eq: "(mx = SIZE_MAX) = (int mx = 2 ^ 64 - 1)"
  using size_max_int by (metis of_nat_eq_iff)

lemma size_max_wrap:
  "(2 * mn + SIZE_MAX) mod (SIZE_MAX + 1) = nat ((2 * int mn + (2 ^ 64 - 1)) mod 2 ^ 64)"
proof -
  have "int ((2 * mn + SIZE_MAX) mod (SIZE_MAX + 1))
      = (int (2 * mn + SIZE_MAX)) mod (int (SIZE_MAX + 1))"
    by (rule zmod_int)
  also have "int (2 * mn + SIZE_MAX) = 2 * int mn + int SIZE_MAX" by simp
  finally have "int ((2 * mn + SIZE_MAX) mod (SIZE_MAX + 1))
      = (2 * int mn + (2 ^ 64 - 1)) mod 2 ^ 64"
    unfolding size_max_int size_max_succ .
  thus ?thesis by (metis nat_int)
qed

lemma mtree_init_code [code]:
  "mtree_init min_node_capacity max_node_capacity d sf =
     \<lparr> minNodeCapacity = min_node_capacity,
       maxNodeCapacity =
         (if int max_node_capacity = 2 ^ 64 - 1
          then nat ((2 * int min_node_capacity + (2 ^ 64 - 1)) mod 2 ^ 64)
          else max_node_capacity),
       root = None, distance_function = d, split_fn = sf \<rparr>"
  unfolding mtree_init_def size_max_eq size_max_wrap ..

text \<open>
  What a call of a node method does: it returns, leaving the node in the given state, or it
  throws one of the four exception classes. \<open>NodeUnderCapacity\<close> carries the state in
  which the throwing node is left, because its catcher goes on using that node.
  \<open>Undefined\<close> stands for a step that the language leaves undefined (a null pointer is
  dereferenced, or an exception escapes every handler), \<open>OutOfFuel\<close> for a computation
  that was cut off.
\<close>

datatype ('a, 'r) signal =
    Returned "('a, 'r) IndexItem"
  | SplitNodeReplacement "('a, 'r) IndexItem" "('a, 'r) IndexItem"
  | RootNodeReplacement "('a, 'r) IndexItem option"
  | NodeUnderCapacity "('a, 'r) IndexItem"
  | DataNotFound 'a
  | Undefined
  | OutOfFuel

text \<open>Continue after a call that returned; every other signal propagates.\<close>

definition on_returned ::
  "('a, 'r) signal \<Rightarrow> (('a, 'r) IndexItem \<Rightarrow> ('a, 'r) signal) \<Rightarrow> ('a, 'r) signal" where
  "on_returned s f = (case s of Returned x \<Rightarrow> f x | _ \<Rightarrow> s)"

text \<open>A \<open>for\<close> loop that calls a method of one node once per element of a list.\<close>

fun for_each ::
  "(('a, 'r) IndexItem \<Rightarrow> 'x \<Rightarrow> ('a, 'r) signal) \<Rightarrow> ('a, 'r) IndexItem \<Rightarrow> 'x list
     \<Rightarrow> ('a, 'r) signal" where
  "for_each body this [] = Returned this"
| "for_each body this (x # xs) = on_returned (body this x) (\<lambda>this'. for_each body this' xs)"

section \<open>Node methods shared by insertion and removal\<close>

definition updateRadius ::
  "('a, 'r::{linorder,zero,one,plus,minus,uminus,abs}) IndexItem \<Rightarrow> ('a, 'r) IndexItem \<Rightarrow> ('a, 'r) IndexItem" where
  "updateRadius this child =
     set_radius (max (radius this) (distanceToParent child + radius child)) this"

text \<open>\<open>children[child->data] = child; updateMetrics(child, distance);\<close>\<close>

definition attach ::
  "('a::linorder, 'r::{linorder,zero,one,plus,minus,uminus,abs}) IndexItem \<Rightarrow> ('a, 'r) IndexItem \<Rightarrow> 'r \<Rightarrow> ('a, 'r) IndexItem" where
  "attach this child distance =
     (let child' = set_distanceToParent distance child
      in updateRadius (set_children (map_store child' (children this)) this) child')"

definition getMinCapacity :: "('a, 'r) mtree \<Rightarrow> ('a, 'r) IndexItem \<Rightarrow> nat" where
  "getMinCapacity mt this =
     (case node_class this of RootLeafNode \<Rightarrow> 1 | RootNode \<Rightarrow> 2 | _ \<Rightarrow> minNodeCapacity mt)"

definition newSplitNodeReplacement ::
  "('a, 'r::{linorder,zero,one,plus,minus,uminus,abs}) IndexItem \<Rightarrow> 'a \<Rightarrow> ('a, 'r) IndexItem" where
  "newSplitNodeReplacement this d =
     (if is_leaf_class (node_class this) then new_Node LeafNode d else new_Node InternalNode d)"

text \<open>
  \<open>addChild\<close> and \<open>checkMaxCapacity\<close>. The \<open>while\<close> loop of
  \<open>NonLeafNodeTrait::addChild\<close> pushes two nodes whenever a merged child splits, and
  nothing in the code bounds the number of its rounds, so these functions take a fuel
  argument that every call decrements; with the fuel used up the result is \<open>OutOfFuel\<close>.

  \<^item> \<open>addChild\<close> dispatches on the class of \<open>this\<close>: a leaf stores the child; a non-leaf
    casts the child to a node and runs the loop.
  \<^item> \<open>addChild_loop\<close> is the loop over the vector \<open>newChildren\<close>, whose back is the
    head of the list.
  \<^item> \<open>move_children\<close> is the inner \<open>for\<close> loop of \<open>checkMaxCapacity\<close>: it moves the
    children named by one partition into one new node. \<open>children[data]\<close> of a key that
    is not there yields a null pointer, which \<open>addChild\<close> then dereferences.
\<close>

function (sequential)
    addChild :: "nat \<Rightarrow> ('a::linorder, 'r::{linorder,zero,one,plus,minus,uminus,abs}) mtree \<Rightarrow> ('a, 'r) IndexItem
                   \<Rightarrow> ('a, 'r) IndexItem \<Rightarrow> 'r \<Rightarrow> ('a, 'r) signal"
and addChild_loop :: "nat \<Rightarrow> ('a, 'r) mtree \<Rightarrow> ('a, 'r) IndexItem
                   \<Rightarrow> (('a, 'r) IndexItem \<times> 'r) list \<Rightarrow> ('a, 'r) signal"
and checkMaxCapacity :: "nat \<Rightarrow> ('a, 'r) mtree \<Rightarrow> ('a, 'r) IndexItem \<Rightarrow> ('a, 'r) signal"
and move_children :: "nat \<Rightarrow> ('a, 'r) mtree \<Rightarrow> ('a, 'r) IndexItem list \<Rightarrow> ('a, 'r) CacheType
                   \<Rightarrow> 'a \<Rightarrow> 'a list \<Rightarrow> ('a, 'r) IndexItem
                   \<Rightarrow> (('a, 'r) IndexItem list \<times> ('a, 'r) CacheType) \<times> ('a, 'r) signal"
where
  "addChild 0 mt this child distance = OutOfFuel"
| "addChild (Suc n) mt this child distance =
     (if is_Entry this then Undefined
      else if is_leaf_class (node_class this) then Returned (attach this child distance)
      else if is_Entry child then Undefined
      else addChild_loop n mt this [(child, distance)])"
| "addChild_loop 0 mt this newChildren = OutOfFuel"
| "addChild_loop (Suc n) mt this [] = Returned this"
| "addChild_loop (Suc n) mt this (cwd # newChildren) =
     (let newChild = fst cwd; distance = snd cwd in
      case map_find (data newChild) (children this) of
        None \<Rightarrow> addChild_loop n mt (attach this newChild distance) newChildren
      | Some existingChild \<Rightarrow>
          (if is_Entry existingChild then Undefined
           else
             on_returned
               (for_each (\<lambda>existing grandchild.
                            addChild n mt existing grandchild (distanceToParent grandchild))
                  existingChild (children newChild))
               (\<lambda>existingChild'.
                  case checkMaxCapacity n mt existingChild' of
                     Returned existingChild'' \<Rightarrow>
                       addChild_loop n mt
                         (set_children (map_store existingChild'' (children this)) this) newChildren
                   | SplitNodeReplacement newNode0 newNode1 \<Rightarrow>
                       addChild_loop n mt
                         (set_children (map_erase (data existingChild) (children this)) this)
                         ((newNode1, distance_function mt (data this) (data newNode1))
                          # (newNode0, distance_function mt (data this) (data newNode0))
                          # newChildren)
                   | s \<Rightarrow> s)))"
| "checkMaxCapacity 0 mt this = OutOfFuel"
| "checkMaxCapacity (Suc n) mt this =
     (if length (children this) > maxNodeCapacity mt then
        (case split_fn mt (set (map data (children this))) {} (distance_function mt) Map.empty of
           None \<Rightarrow> Undefined
         | Some split \<Rightarrow>
             (let promoted = fst split; firstPartition = fst (fst (snd split));
                  secondPartition = snd (fst (snd split)); cache = snd (snd split);
                  moved0 = move_children n mt (children this) cache (fst promoted)
                     (sorted_list_of_set firstPartition) (newSplitNodeReplacement this (fst promoted))
              in on_returned (snd moved0)
                  (\<lambda>newNode0.
                     let moved1 = move_children n mt (fst (fst moved0)) (snd (fst moved0)) (snd promoted)
                          (sorted_list_of_set secondPartition)
                          (newSplitNodeReplacement this (snd promoted))
                     in on_returned (snd moved1) (\<lambda>newNode1. SplitNodeReplacement newNode0 newNode1))))
      else Returned this)"
| "move_children 0 mt remaining cache promotedData part newNode = ((remaining, cache), OutOfFuel)"
| "move_children (Suc n) mt remaining cache promotedData [] newNode =
     ((remaining, cache), Returned newNode)"
| "move_children (Suc n) mt remaining cache promotedData (d # part) newNode =
     (case map_find d remaining of
        None \<Rightarrow> ((remaining, cache), Undefined)
      | Some child \<Rightarrow>
          (let cd = cached_distance_function (distance_function mt) cache promotedData d;
               distance = fst cd; cache' = fst (snd cd);
               added = addChild n mt newNode child distance
           in case added of
                Returned newNode' \<Rightarrow>
                  move_children n mt (map_erase d remaining) cache' promotedData part newNode'
              | _ \<Rightarrow> ((map_erase d remaining, cache'), added)))"
  by pat_completeness auto
termination
  by (relation "measure (\<lambda>x. case x of Inl (Inl (n, _)) \<Rightarrow> n | Inl (Inr (n, _)) \<Rightarrow> n
                                     | Inr (Inl (n, _)) \<Rightarrow> n | Inr (Inr (n, _)) \<Rightarrow> n)") auto

section \<open>Insertion (addData, doAddData)\<close>

text \<open>A \<open>double\<close> that may hold \<open>numeric_limits<double>::infinity()\<close>.\<close>

datatype 'r ext = Finite 'r | Infinity

fun less_ext :: "'r::linorder \<Rightarrow> 'r ext \<Rightarrow> bool" where
  "less_ext x Infinity = True"
| "less_ext x (Finite y) = (x < y)"

fun le_ext :: "'r::linorder \<Rightarrow> 'r ext \<Rightarrow> bool" where
  "le_ext x Infinity = True"
| "le_ext x (Finite y) = (x \<le> y)"

text \<open>The local struct \<open>CandidateChild\<close> with its fields \<open>node\<close>, \<open>distance\<close>, \<open>metric\<close>.\<close>

type_synonym ('a, 'r) CandidateChild = "('a, 'r) IndexItem option \<times> 'r \<times> 'r ext"

definition cand_node :: "('a, 'r) CandidateChild \<Rightarrow> ('a, 'r) IndexItem option" where
  "cand_node c = fst c"

definition cand_distance :: "('a, 'r) CandidateChild \<Rightarrow> 'r" where
  "cand_distance c = fst (snd c)"

definition cand_metric :: "('a, 'r) CandidateChild \<Rightarrow> 'r ext" where
  "cand_metric c = snd (snd c)"

definition no_candidate :: "('a, 'r::{linorder,zero,one,plus,minus,uminus,abs}) CandidateChild" where
  "no_candidate = (None, - 1, Infinity)"

text \<open>
  The \<open>for\<close> loop of \<open>NonLeafNodeTrait::doAddData\<close> over the children map. A child that
  is not a node makes the cast yield a null pointer, which the loop dereferences.
\<close>

fun candidates ::
  "('a \<Rightarrow> 'a \<Rightarrow> 'r::{linorder,zero,one,plus,minus,uminus,abs}) \<Rightarrow> 'a \<Rightarrow> ('a, 'r) IndexItem list
     \<Rightarrow> ('a, 'r) CandidateChild \<Rightarrow> ('a, 'r) CandidateChild
     \<Rightarrow> (('a, 'r) CandidateChild \<times> ('a, 'r) CandidateChild) option" where
  "candidates d data0 [] minRadiusIncreaseNeeded nearestDistance =
     Some (minRadiusIncreaseNeeded, nearestDistance)"
| "candidates d data0 (child # rest) minRadiusIncreaseNeeded nearestDistance =
     (if is_Entry child then None
      else
        (let distance = d (data child) data0 in
         if distance > radius child then
           (let radiusIncrease = distance - radius child in
            if less_ext radiusIncrease (cand_metric minRadiusIncreaseNeeded)
            then candidates d data0 rest (Some child, distance, Finite radiusIncrease) nearestDistance
            else candidates d data0 rest minRadiusIncreaseNeeded nearestDistance)
         else
           (if less_ext distance (cand_metric nearestDistance)
            then candidates d data0 rest minRadiusIncreaseNeeded (Some child, distance, Finite distance)
            else candidates d data0 rest minRadiusIncreaseNeeded nearestDistance)))"

text \<open>The candidate \<open>chosen\<close> by \<open>doAddData\<close>.\<close>

definition choose_child ::
  "('a \<Rightarrow> 'a \<Rightarrow> 'r::{linorder,zero,one,plus,minus,uminus,abs}) \<Rightarrow> 'a \<Rightarrow> ('a, 'r) IndexItem list
     \<Rightarrow> ('a, 'r) CandidateChild option" where
  "choose_child d data0 cs =
     (case candidates d data0 cs no_candidate no_candidate of
        None \<Rightarrow> None
      | Some (minRadiusIncreaseNeeded, nearestDistance) \<Rightarrow>
          Some (if cand_node nearestDistance \<noteq> None then nearestDistance
                else minRadiusIncreaseNeeded))"

text \<open>
  What \<open>NonLeafNodeTrait::doAddData\<close> does with the outcome of \<open>child->addData\<close>: after
  a return it updates its radius from the child; a \<open>SplitNodeReplacement\<close> is caught, the
  child is erased and the two new nodes are added.
\<close>

definition after_child_addData ::
  "nat \<Rightarrow> ('a::linorder, 'r::{linorder,zero,one,plus,minus,uminus,abs}) mtree \<Rightarrow> ('a, 'r) IndexItem \<Rightarrow> ('a, 'r) IndexItem
     \<Rightarrow> ('a, 'r) signal \<Rightarrow> ('a, 'r) signal" where
  "after_child_addData n mt this child outcome =
     (case outcome of
        Returned child' \<Rightarrow>
          Returned (updateRadius (set_children (map_store child' (children this)) this) child')
      | SplitNodeReplacement newNode0 newNode1 \<Rightarrow>
          on_returned
            (addChild n mt (set_children (map_erase (data child) (children this)) this) newNode0
               (distance_function mt (data this) (data newNode0)))
            (\<lambda>this'. addChild n mt this' newNode1 (distance_function mt (data this) (data newNode1)))
      | _ \<Rightarrow> outcome)"

function (sequential)
    addData :: "nat \<Rightarrow> ('a::linorder, 'r::{linorder,zero,one,plus,minus,uminus,abs}) mtree \<Rightarrow> ('a, 'r) IndexItem
                  \<Rightarrow> 'a \<Rightarrow> 'r \<Rightarrow> ('a, 'r) signal"
and doAddData :: "nat \<Rightarrow> ('a, 'r) mtree \<Rightarrow> ('a, 'r) IndexItem \<Rightarrow> 'a \<Rightarrow> 'r \<Rightarrow> ('a, 'r) signal"
where
  "addData 0 mt this data0 distance = OutOfFuel"
| "addData (Suc n) mt this data0 distance =
     on_returned (doAddData n mt this data0 distance) (\<lambda>this'. checkMaxCapacity n mt this')"
| "doAddData 0 mt this data0 distance = OutOfFuel"
| "doAddData (Suc n) mt this data0 distance =
     (if is_Entry this then Undefined
      else if is_leaf_class (node_class this) then Returned (attach this (new_Entry data0) distance)
      else
        (case choose_child (distance_function mt) data0 (children this) of
           None \<Rightarrow> Undefined
         | Some chosen \<Rightarrow>
            (case cand_node chosen of
               None \<Rightarrow> Undefined
             | Some child \<Rightarrow>
                 after_child_addData n mt this child
                   (addData n mt child data0 (cand_distance chosen)))))"
  by pat_completeness auto
termination
  by (relation "measure (\<lambda>x. case x of Inl (n, _) \<Rightarrow> n | Inr (n, _) \<Rightarrow> n)") auto

section \<open>Removal (removeData, doRemoveData, balanceChildren)\<close>

text \<open>A node pointer that starts as \<open>NULL\<close>, with the distance that starts as infinity.\<close>

type_synonym ('a, 'r) Nearest = "('a, 'r) IndexItem option \<times> 'r ext"

text \<open>
  The first loop of \<open>balanceChildren\<close>. The test \<open>anotherChild == theChild\<close> compares
  pointers; the children of one node have distinct keys, so it is the comparison of the
  keys.
\<close>

fun balance_scan ::
  "('a, 'r::{linorder,zero,one,plus,minus,uminus,abs}) mtree \<Rightarrow> ('a, 'r) IndexItem \<Rightarrow> ('a, 'r) IndexItem list
     \<Rightarrow> ('a, 'r) Nearest \<Rightarrow> ('a, 'r) Nearest \<Rightarrow> (('a, 'r) Nearest \<times> ('a, 'r) Nearest) option" where
  "balance_scan mt theChild [] nearestDonor nearestMergeCandidate =
     Some (nearestDonor, nearestMergeCandidate)"
| "balance_scan mt theChild (anotherChild # rest) nearestDonor nearestMergeCandidate =
     (if is_Entry anotherChild then None
      else if data anotherChild = data theChild
      then balance_scan mt theChild rest nearestDonor nearestMergeCandidate
      else
        (let distance = distance_function mt (data theChild) (data anotherChild) in
         if length (children anotherChild) > getMinCapacity mt anotherChild then
           (if less_ext distance (snd nearestDonor)
            then balance_scan mt theChild rest (Some anotherChild, Finite distance) nearestMergeCandidate
            else balance_scan mt theChild rest nearestDonor nearestMergeCandidate)
         else
           (if less_ext distance (snd nearestMergeCandidate)
            then balance_scan mt theChild rest nearestDonor (Some anotherChild, Finite distance)
            else balance_scan mt theChild rest nearestDonor nearestMergeCandidate)))"

text \<open>The loop of the donation branch over the children of the donor.\<close>

fun nearest_grandchild ::
  "('a, 'r::{linorder,zero,one,plus,minus,uminus,abs}) mtree \<Rightarrow> ('a, 'r) IndexItem \<Rightarrow> ('a, 'r) IndexItem list
     \<Rightarrow> ('a, 'r) Nearest \<Rightarrow> ('a, 'r) Nearest" where
  "nearest_grandchild mt theChild [] nearestGrandchild = nearestGrandchild"
| "nearest_grandchild mt theChild (grandchild # rest) nearestGrandchild =
     (let distance = distance_function mt (data grandchild) (data theChild) in
      if less_ext distance (snd nearestGrandchild)
      then nearest_grandchild mt theChild rest (Some grandchild, Finite distance)
      else nearest_grandchild mt theChild rest nearestGrandchild)"

text \<open>
  \<open>balanceChildren\<close> returns the state of \<open>this\<close> together with the node it returns in
  the source. Without a donor and without a merge candidate the source dereferences a
  null pointer; a donor without children leaves \<open>nearestGrandchild\<close> uninitialised.
\<close>

definition balanceChildren ::
  "nat \<Rightarrow> ('a::linorder, 'r::{linorder,zero,one,plus,minus,uminus,abs}) mtree \<Rightarrow> ('a, 'r) IndexItem \<Rightarrow> ('a, 'r) IndexItem
     \<Rightarrow> ('a, 'r) signal \<times> ('a, 'r) IndexItem option" where
  "balanceChildren n mt this theChild =
     (case balance_scan mt theChild (children this) (None, Infinity) (None, Infinity) of
        None \<Rightarrow> (Undefined, None)
      | Some (nearestDonor, nearestMergeCandidate) \<Rightarrow>
         (case fst nearestDonor of
            None \<Rightarrow>
              (case fst nearestMergeCandidate of
                 None \<Rightarrow> (Undefined, None)
               | Some mergeCandidate \<Rightarrow>
                  (case for_each (\<lambda>candidate grandchild. addChild n mt candidate grandchild
                                    (distance_function mt (data grandchild) (data candidate)))
                          mergeCandidate (children theChild) of
                     Returned mergeCandidate' \<Rightarrow>
                       (Returned (set_children
                                   (map_erase (data theChild)
                                      (map_store mergeCandidate' (children this))) this),
                        Some mergeCandidate')
                   | s \<Rightarrow> (s, None)))
          | Some donor \<Rightarrow>
              (case nearest_grandchild mt theChild (children donor) (None, Infinity) of
                 (Some nearestGrandchild, Finite nearestGrandchildDistance) \<Rightarrow>
                   (let donor' = set_children
                                   (map_erase (data nearestGrandchild) (children donor)) donor in
                    case addChild n mt theChild nearestGrandchild nearestGrandchildDistance of
                      Returned theChild' \<Rightarrow>
                        (Returned (set_children
                                    (map_store theChild' (map_store donor' (children this))) this),
                         Some theChild')
                    | s \<Rightarrow> (s, None))
               | _ \<Rightarrow> (Undefined, None))))"

text \<open>
  The loop of \<open>NonLeafNodeTrait::doRemoveData\<close> over the children map. The two methods it
  calls, \<open>child->removeData\<close> and \<open>balanceChildren\<close>, are parameters.
\<close>

fun doRemoveData_loop ::
  "(('a, 'r) IndexItem \<Rightarrow> 'r \<Rightarrow> ('a, 'r) signal)
     \<Rightarrow> (('a, 'r) IndexItem \<Rightarrow> ('a, 'r) IndexItem \<Rightarrow> ('a, 'r) signal \<times> ('a, 'r) IndexItem option)
     \<Rightarrow> ('a::linorder, 'r::{linorder,zero,one,plus,minus,uminus,abs}) mtree \<Rightarrow> ('a, 'r) IndexItem \<Rightarrow> 'a \<Rightarrow> 'r
     \<Rightarrow> ('a, 'r) IndexItem list \<Rightarrow> ('a, 'r) signal" where
  "doRemoveData_loop child_removeData this_balanceChildren mt this data0 distance [] =
     DataNotFound data0"
| "doRemoveData_loop child_removeData this_balanceChildren mt this data0 distance (child # rest) =
     (if is_Entry child then Undefined
      else if abs (distance - distanceToParent child) \<le> radius child
              \<and> distance_function mt data0 (data child) \<le> radius child then
        (case child_removeData child (distance_function mt data0 (data child)) of
           Returned child' \<Rightarrow>
             Returned (updateRadius (set_children (map_store child' (children this)) this) child')
         | DataNotFound _ \<Rightarrow>
             doRemoveData_loop child_removeData this_balanceChildren mt this data0 distance rest
         | NodeUnderCapacity child' \<Rightarrow>
             (case this_balanceChildren (set_children (map_store child' (children this)) this) child' of
                (Returned this', Some expandedChild) \<Rightarrow> Returned (updateRadius this' expandedChild)
              | (s, _) \<Rightarrow> s)
         | s \<Rightarrow> s)
      else doRemoveData_loop child_removeData this_balanceChildren mt this data0 distance rest)"

text \<open>
  The handler of \<open>RootNode::removeData\<close>: the first child is promoted to the root and
  its children are added to the new root.
\<close>

definition promote_single_child ::
  "nat \<Rightarrow> ('a::linorder, 'r::{linorder,zero,one,plus,minus,uminus,abs}) mtree \<Rightarrow> ('a, 'r) IndexItem \<Rightarrow> ('a, 'r) signal" where
  "promote_single_child n mt this =
     (case children this of
        [] \<Rightarrow> Undefined
      | theChild # _ \<Rightarrow>
          (if is_Entry theChild then Undefined
           else
             on_returned
               (for_each (\<lambda>newRoot grandchild. addChild n mt newRoot grandchild
                             (distance_function mt (data newRoot) (data grandchild)))
                  (if node_class theChild = InternalNode then new_Node RootNode (data theChild)
                   else new_Node RootLeafNode (data theChild))
                  (children theChild))
               (\<lambda>newRoot. RootNodeReplacement (Some newRoot))))"

text \<open>
  \<open>removeData\<close> is the virtual method (overridden by the two root classes),
  \<open>Node_removeData\<close> is \<open>Node::removeData\<close>, and \<open>doRemoveData\<close> dispatches on the
  leaf or non-leaf trait.
\<close>

function (sequential)
    removeData :: "nat \<Rightarrow> ('a::linorder, 'r::{linorder,zero,one,plus,minus,uminus,abs}) mtree \<Rightarrow> ('a, 'r) IndexItem
                     \<Rightarrow> 'a \<Rightarrow> 'r \<Rightarrow> ('a, 'r) signal"
and Node_removeData :: "nat \<Rightarrow> ('a, 'r) mtree \<Rightarrow> ('a, 'r) IndexItem \<Rightarrow> 'a \<Rightarrow> 'r \<Rightarrow> ('a, 'r) signal"
and doRemoveData :: "nat \<Rightarrow> ('a, 'r) mtree \<Rightarrow> ('a, 'r) IndexItem \<Rightarrow> 'a \<Rightarrow> 'r \<Rightarrow> ('a, 'r) signal"
where
  "removeData 0 mt this data0 distance = OutOfFuel"
| "removeData (Suc n) mt this data0 distance =
     (if is_Entry this then Undefined
      else
        (case node_class this of
           RootLeafNode \<Rightarrow>
             (case Node_removeData n mt this data0 distance of
                NodeUnderCapacity _ \<Rightarrow> RootNodeReplacement None
              | s \<Rightarrow> s)
         | RootNode \<Rightarrow>
             (case Node_removeData n mt this data0 distance of
                NodeUnderCapacity this' \<Rightarrow> promote_single_child n mt this'
              | s \<Rightarrow> s)
         | _ \<Rightarrow> Node_removeData n mt this data0 distance))"
| "Node_removeData 0 mt this data0 distance = OutOfFuel"
| "Node_removeData (Suc n) mt this data0 distance =
     on_returned (doRemoveData n mt this data0 distance)
       (\<lambda>this'. if length (children this') < getMinCapacity mt this' then NodeUnderCapacity this'
                else Returned this')"
| "doRemoveData 0 mt this data0 distance = OutOfFuel"
| "doRemoveData (Suc n) mt this data0 distance =
     (if is_Entry this then Undefined
      else if is_leaf_class (node_class this) then
        (case map_find data0 (children this) of
           None \<Rightarrow> DataNotFound data0
         | Some _ \<Rightarrow> Returned (set_children (map_erase data0 (children this)) this))
      else
        doRemoveData_loop (\<lambda>child distanceToChild. removeData n mt child data0 distanceToChild)
          (\<lambda>this' theChild. balanceChildren n mt this' theChild)
          mt this data0 distance (children this))"
  by pat_completeness auto
termination
  by (relation "measure (\<lambda>x. case x of Inl (n, _) \<Rightarrow> n | Inr (Inl (n, _)) \<Rightarrow> n
                                     | Inr (Inr (n, _)) \<Rightarrow> n)") auto

section \<open>The public operations add and remove\<close>

text \<open>
  Both return \<open>None\<close> when the call does not complete: the behaviour is undefined, an
  exception leaves the operation, or the fuel is used up. \<open>remove\<close> returns its boolean
  result together with the tree.
\<close>

definition add ::
  "nat \<Rightarrow> ('a::linorder, 'r::{linorder,zero,one,plus,minus,uminus,abs}) mtree \<Rightarrow> 'a \<Rightarrow> ('a, 'r) mtree option" where
  "add n mt data0 =
     (case root mt of
        None \<Rightarrow>
          (case addData n mt (new_Node RootLeafNode data0) data0 0 of
             Returned root' \<Rightarrow> Some (mt\<lparr>root := Some root'\<rparr>)
           | _ \<Rightarrow> None)
      | Some root0 \<Rightarrow>
          (case addData n mt root0 data0 (distance_function mt data0 (data root0)) of
             Returned root' \<Rightarrow> Some (mt\<lparr>root := Some root'\<rparr>)
           | SplitNodeReplacement newNode0 newNode1 \<Rightarrow>
               (case on_returned
                       (addChild n mt (new_Node RootNode (data root0)) newNode0
                          (distance_function mt (data root0) (data newNode0)))
                       (\<lambda>newRoot. addChild n mt newRoot newNode1
                          (distance_function mt (data root0) (data newNode1))) of
                  Returned newRoot \<Rightarrow> Some (mt\<lparr>root := Some newRoot\<rparr>)
                | _ \<Rightarrow> None)
           | _ \<Rightarrow> None))"

definition remove ::
  "nat \<Rightarrow> ('a::linorder, 'r::{linorder,zero,one,plus,minus,uminus,abs}) mtree \<Rightarrow> 'a \<Rightarrow> (bool \<times> ('a, 'r) mtree) option" where
  "remove n mt data0 =
     (case root mt of
        None \<Rightarrow> Some (False, mt)
      | Some root0 \<Rightarrow>
          (case removeData n mt root0 data0 (distance_function mt data0 (data root0)) of
             Returned root' \<Rightarrow> Some (True, mt\<lparr>root := Some root'\<rparr>)
           | RootNodeReplacement newRoot \<Rightarrow> Some (True, mt\<lparr>root := newRoot\<rparr>)
           | DataNotFound _ \<Rightarrow> Some (False, mt)
           | _ \<Rightarrow> None))"

section \<open>Nearest-neighbour queries (class query and its iterator)\<close>

text \<open>The struct \<open>ItemWithDistances\<close> with its fields \<open>item\<close>, \<open>distance\<close>, \<open>minDistance\<close>.\<close>

type_synonym ('a, 'r) ItemWithDistances = "('a, 'r) IndexItem \<times> 'r \<times> 'r"

definition iwd_item :: "('a, 'r) ItemWithDistances \<Rightarrow> ('a, 'r) IndexItem" where
  "iwd_item i = fst i"

definition iwd_distance :: "('a, 'r) ItemWithDistances \<Rightarrow> 'r" where
  "iwd_distance i = fst (snd i)"

definition iwd_minDistance :: "('a, 'r) ItemWithDistances \<Rightarrow> 'r" where
  "iwd_minDistance i = snd (snd i)"

text \<open>
  A \<open>std::priority_queue\<close> whose \<open>operator<\<close> prefers the smaller \<open>minDistance\<close> is a list
  in ascending order of \<open>minDistance\<close>: \<open>top()\<close> is the head and \<open>pop()\<close> removes it.
  Among items of equal \<open>minDistance\<close> the one pushed last is in front. The library does
  not fix that order, and its heap may yield such items in another order; the statements
  below about results of queries are about queues in which no two items have the same
  \<open>minDistance\<close>, or about queries that pop nothing.
\<close>

definition pq_push ::
  "('a, 'r::linorder) ItemWithDistances \<Rightarrow> ('a, 'r) ItemWithDistances list
     \<Rightarrow> ('a, 'r) ItemWithDistances list" where
  "pq_push x queue = insort_key iwd_minDistance x queue"

record ('a, 'r) query =
  q_mtree :: "('a, 'r) mtree"
  q_data :: 'a
  q_range :: "'r ext"
  q_limit :: nat

text \<open>
  The iterator. \<open>it_query\<close> is the pointer \<open>_query\<close> (\<open>None\<close> in an iterator made by the
  default constructor), \<open>currentResultItem\<close> is \<open>None\<close> until a first result is stored.
\<close>

record ('a, 'r) iterator =
  it_query :: "('a, 'r) query option"
  currentResultItem :: "('a \<times> 'r) option"
  isEnd :: bool
  pendingQueue :: "('a, 'r) ItemWithDistances list"
  nextPendingMinDistance :: "'r ext"
  nearestQueue :: "('a, 'r) ItemWithDistances list"
  yieldedCount :: nat

definition get_nearest :: "('a, 'r) mtree \<Rightarrow> 'a \<Rightarrow> 'r ext \<Rightarrow> nat \<Rightarrow> ('a, 'r) query" where
  "get_nearest mt query_data range0 limit =
     \<lparr> q_mtree = mt, q_data = query_data, q_range = range0, q_limit = limit \<rparr>"

text \<open>\<open>prepareNextNearest\<close> returns its boolean result and the state of the iterator.\<close>

definition prepareNextNearest :: "('a, 'r::linorder) iterator \<Rightarrow> bool \<times> ('a, 'r) iterator" where
  "prepareNextNearest it =
     (case nearestQueue it of
        [] \<Rightarrow> (False, it)
      | nextNearest # rest \<Rightarrow>
          (if le_ext (iwd_distance nextNearest) (nextPendingMinDistance it)
           then (True, it\<lparr> nearestQueue := rest,
                           currentResultItem :=
                             Some (data (iwd_item nextNearest), iwd_distance nextNearest),
                           yieldedCount := yieldedCount it + 1 \<rparr>)
           else (False, it)))"

text \<open>The \<open>for\<close> loop of \<open>fetchNext\<close> over the children of the pending node.\<close>

fun visit_children ::
  "('a, 'r::{linorder,zero,one,plus,minus,uminus,abs}) query \<Rightarrow> ('a, 'r) ItemWithDistances \<Rightarrow> ('a, 'r) IndexItem list
     \<Rightarrow> ('a, 'r) iterator \<Rightarrow> ('a, 'r) iterator" where
  "visit_children q pending [] it = it"
| "visit_children q pending (child # rest) it =
     (if le_ext (abs (iwd_distance pending - distanceToParent child) - radius child) (q_range q) then
        (let childDistance = distance_function (q_mtree q) (q_data q) (data child);
             childMinDistance = max (childDistance - radius child) 0
         in if le_ext childMinDistance (q_range q) then
              (if is_Entry child
               then visit_children q pending rest
                      (it\<lparr> nearestQueue :=
                             pq_push (child, childDistance, childMinDistance) (nearestQueue it) \<rparr>)
               else visit_children q pending rest
                      (it\<lparr> pendingQueue :=
                             pq_push (child, childDistance, childMinDistance) (pendingQueue it) \<rparr>))
            else visit_children q pending rest it)
      else visit_children q pending rest it)"

text \<open>
  The number of index items that the iterator may still have to handle; it bounds the
  rounds of the \<open>while\<close> loop of \<open>fetchNext\<close>.
\<close>

fun weight :: "('a, 'r) IndexItem \<Rightarrow> nat" where
  "weight (Entry d r p) = 1"
| "weight (Node c d r p cs) = Suc (sum_list (map weight cs))"

definition work :: "('a, 'r) iterator \<Rightarrow> nat" where
  "work it = sum_list (map (weight \<circ> iwd_item) (pendingQueue it)) + length (nearestQueue it)"

lemma weight_children: "sum_list (map weight (children x)) < weight x"
  by (cases x) auto

lemma weight_Entry: "is_Entry x \<Longrightarrow> weight x = 1"
  by (cases x) auto

lemma sum_list_insort_key:
  "sum_list (map f (insort_key k x xs)) = (f x :: nat) + sum_list (map f xs)"
  by (induction xs) auto

lemma work_visit_children:
  "work (visit_children q pending cs it) \<le> work it + sum_list (map weight cs)"
proof (induction cs arbitrary: it)
  case Nil
  then show ?case by simp
next
  case (Cons child rest)
  let ?item = "(child, distance_function (q_mtree q) (q_data q) (data child),
           max (distance_function (q_mtree q) (q_data q) (data child) - radius child) 0)"
  show ?case
    using Cons.IH[of it]
      Cons.IH[of "it\<lparr> nearestQueue := pq_push ?item (nearestQueue it) \<rparr>"]
      Cons.IH[of "it\<lparr> pendingQueue := pq_push ?item (pendingQueue it) \<rparr>"]
    by (auto simp: Let_def work_def pq_push_def sum_list_insort_key iwd_item_def weight_Entry)
qed

text \<open>
  The \<open>while\<close> loop of \<open>fetchNext\<close>. With an empty pending queue and no result ready the
  source calls \<open>top()\<close> of an empty queue; the result is then \<open>None\<close>.
\<close>

function fetch_loop ::
  "('a, 'r::{linorder,zero,one,plus,minus,uminus,abs}) query \<Rightarrow> ('a, 'r) iterator \<Rightarrow> ('a, 'r) iterator option" where
  "fetch_loop q it =
     (if pendingQueue it = [] \<and> nearestQueue it = [] then Some (it\<lparr> isEnd := True \<rparr>)
      else if fst (prepareNextNearest it) then Some (snd (prepareNextNearest it))
      else
        (case pendingQueue it of
           [] \<Rightarrow> None
         | pending # rest \<Rightarrow>
             (let it1 = visit_children q pending (children (iwd_item pending))
                          (it\<lparr> pendingQueue := rest \<rparr>)
              in fetch_loop q
                   (it1\<lparr> nextPendingMinDistance :=
                            (case pendingQueue it1 of
                               [] \<Rightarrow> Infinity
                             | first # _ \<Rightarrow> Finite (iwd_minDistance first)) \<rparr>))))"
  by pat_completeness auto
termination
proof (relation "measure (\<lambda>(q, it). work it)", goal_cases)
  case 1
  show ?case by simp
next
  case (2 q it pending rest it1)
  have "work it1 \<le> work (it\<lparr> pendingQueue := rest \<rparr>)
                    + sum_list (map weight (children (iwd_item pending)))"
    unfolding 2 by (rule work_visit_children)
  also have "\<dots> < work (it\<lparr> pendingQueue := rest \<rparr>) + weight (iwd_item pending)"
    using weight_children[of "iwd_item pending"] by simp
  also have "\<dots> = work it" using 2 by (simp add: work_def)
  finally show ?case by (simp add: work_def)
qed

declare fetch_loop.simps [simp del]

definition fetchNext :: "('a, 'r::{linorder,zero,one,plus,minus,uminus,abs}) iterator \<Rightarrow> ('a, 'r) iterator option" where
  "fetchNext it =
     (case it_query it of
        None \<Rightarrow> (if isEnd it then Some (it\<lparr> isEnd := True \<rparr>) else None)
      | Some q \<Rightarrow>
          (if isEnd it \<or> yieldedCount it \<ge> q_limit q then Some (it\<lparr> isEnd := True \<rparr>)
           else fetch_loop q it))"

text \<open>\<open>query::end()\<close> and \<open>query::begin()\<close>.\<close>

definition end_iterator :: "('a, 'r) iterator" where
  "end_iterator =
     \<lparr> it_query = None, currentResultItem = None, isEnd = True, pendingQueue = [],
       nextPendingMinDistance = Infinity, nearestQueue = [], yieldedCount = 0 \<rparr>"

definition begin_iterator :: "('a, 'r::{linorder,zero,one,plus,minus,uminus,abs}) query \<Rightarrow> ('a, 'r) iterator option" where
  "begin_iterator q =
     (let it = \<lparr> it_query = Some q, currentResultItem = None, isEnd = False, pendingQueue = [],
                 nextPendingMinDistance = Infinity, nearestQueue = [], yieldedCount = 0 \<rparr>
      in case root (q_mtree q) of
           None \<Rightarrow> Some (it\<lparr> isEnd := True \<rparr>)
         | Some root0 \<Rightarrow>
             (let distance = distance_function (q_mtree q) (q_data q) (data root0);
                  minDistance = max (distance - radius root0) 0
              in fetchNext (it\<lparr> pendingQueue := pq_push (root0, distance, minDistance) (pendingQueue it),
                                 nextPendingMinDistance := Finite minDistance \<rparr>)))"

text \<open>\<open>iterator::operator==\<close>; the two \<open>_query\<close> pointers are equal when they point to the same query.\<close>

definition iterator_equal :: "('a, 'r) iterator \<Rightarrow> ('a, 'r) iterator \<Rightarrow> bool" where
  "iterator_equal this ri =
     (if isEnd this \<and> isEnd ri then True
      else if isEnd this \<or> isEnd ri then False
      else it_query this = it_query ri \<and> yieldedCount this = yieldedCount ri)"

lemma work_prepareNextNearest:
  "fst (prepareNextNearest it) \<Longrightarrow> work (snd (prepareNextNearest it)) < work it"
  by (auto simp: prepareNextNearest_def work_def split: list.splits if_splits)

lemma fetch_loop_work:
  "fetch_loop q it = Some it' \<Longrightarrow> isEnd it' \<or> work it' < work it"
proof (induction q it rule: fetch_loop.induct)
  case (1 q it)
  show ?case
  proof (cases "pendingQueue it = [] \<and> nearestQueue it = []")
    case True
    with "1.prems" show ?thesis by (subst (asm) fetch_loop.simps) auto
  next
    case False
    note ne = this
    show ?thesis
    proof (cases "fst (prepareNextNearest it)")
      case True
      with ne "1.prems" have "it' = snd (prepareNextNearest it)"
        by (subst (asm) fetch_loop.simps) auto
      with True show ?thesis using work_prepareNextNearest[of it] by simp
    next
      case False
      note np = this
      show ?thesis
      proof (cases "pendingQueue it")
        case Nil
        with ne np "1.prems" show ?thesis by (subst (asm) fetch_loop.simps) auto
      next
        case (Cons pending rest)
        define it1 where
          "it1 = visit_children q pending (children (iwd_item pending)) (it\<lparr> pendingQueue := rest \<rparr>)"
        define it2 where "it2 = it1\<lparr> nextPendingMinDistance :=
                            (case pendingQueue it1 of
                               [] \<Rightarrow> Infinity
                             | first # _ \<Rightarrow> Finite (iwd_minDistance first)) \<rparr>"
        have eq: "fetch_loop q it = fetch_loop q it2"
          using ne np Cons by (subst fetch_loop.simps) (simp add: it1_def it2_def Let_def)
        have "work it1 \<le> work (it\<lparr> pendingQueue := rest \<rparr>)
                          + sum_list (map weight (children (iwd_item pending)))"
          unfolding it1_def by (rule work_visit_children)
        also have "\<dots> < work (it\<lparr> pendingQueue := rest \<rparr>) + weight (iwd_item pending)"
          using weight_children[of "iwd_item pending"] by simp
        also have "\<dots> = work it" using Cons by (simp add: work_def)
        finally have less: "work it2 < work it" by (simp add: work_def it2_def)
        have "isEnd it' \<or> work it' < work it2"
          using "1.IH"[OF ne np Cons refl] "1.prems" eq by (simp add: it2_def it1_def)
        with less show ?thesis by auto
      qed
    qed
  qed
qed

definition steps_left :: "('a, 'r) iterator \<Rightarrow> nat" where
  "steps_left it = (if isEnd it then 0 else Suc (work it))"

lemma fetchNext_steps_left:
  "\<not> isEnd it \<Longrightarrow> fetchNext it = Some it' \<Longrightarrow> steps_left it' < steps_left it"
  using fetch_loop_work[of _ it it']
  by (auto simp: fetchNext_def steps_left_def split: option.splits if_splits)

text \<open>
  The results of a query, as a caller collects them with
  \<open>for (i = q.begin(); i != q.end(); ++i)\<close>, reading \<open>*i\<close> in every round. An iterator
  differs from \<open>end()\<close> exactly when its \<open>isEnd\<close> is false.
\<close>

function collect :: "('a, 'r::{linorder,zero,one,plus,minus,uminus,abs}) iterator \<Rightarrow> ('a \<times> 'r) list option" where
  "collect it =
     (if isEnd it then Some []
      else
        (case currentResultItem it of
           None \<Rightarrow> None
         | Some item \<Rightarrow>
             (case fetchNext it of
                None \<Rightarrow> None
              | Some it' \<Rightarrow> map_option ((#) item) (collect it'))))"
  by pat_completeness auto
termination
proof (relation "measure steps_left", goal_cases)
  case 1
  show ?case by simp
next
  case (2 it item it')
  then show ?case using fetchNext_steps_left[of it it'] by simp
qed

declare collect.simps [simp del]

definition results :: "('a, 'r::{linorder,zero,one,plus,minus,uminus,abs}) query \<Rightarrow> ('a \<times> 'r) list option" where
  "results q = (case begin_iterator q of None \<Rightarrow> None | Some it \<Rightarrow> collect it)"

section \<open>Notions used in the statements\<close>

text \<open>
  The cache holds exactly the pairs, in both orderings, of the invocations made so far,
  each with the value computed by its invocation.
\<close>

definition cache_of :: "('a \<Rightarrow> 'a \<Rightarrow> 'r) \<Rightarrow> ('a \<times> 'a) list \<Rightarrow> ('a, 'r) CacheType \<Rightarrow> bool" where
  "cache_of d invoked cache \<longleftrightarrow>
     distinct (map unordered invoked) \<and>
     (\<forall>a b. cache (a, b) = None \<longleftrightarrow> unordered (a, b) \<notin> unordered ` set invoked) \<and>
     (\<forall>a b v. cache (a, b) = Some v \<longrightarrow>
        cache (b, a) = Some v \<and>
        (\<exists>p \<in> set invoked. unordered p = unordered (a, b) \<and> v = d (fst p) (snd p)))"



text \<open>A child covers a new object when the object lies within the radius of the child.\<close>

definition covers :: "('a \<Rightarrow> 'a \<Rightarrow> 'r::{linorder,zero,one,plus,minus,uminus,abs}) \<Rightarrow> 'a \<Rightarrow> ('a, 'r) IndexItem \<Rightarrow> bool" where
  "covers d data0 c \<longleftrightarrow> d (data c) data0 \<le> radius c"

text \<open>What the two candidates of \<open>doAddData\<close> hold after the children \<open>seen\<close>.\<close>

definition nearest_of ::
  "('a \<Rightarrow> 'a \<Rightarrow> 'r::{linorder,zero,one,plus,minus,uminus,abs}) \<Rightarrow> 'a \<Rightarrow> ('a, 'r) IndexItem list
     \<Rightarrow> ('a, 'r) CandidateChild \<Rightarrow> bool" where
  "nearest_of d data0 seen cand \<longleftrightarrow>
     (case cand_node cand of
        None \<Rightarrow> cand_metric cand = Infinity \<and> (\<forall>c \<in> set seen. \<not> covers d data0 c)
      | Some child \<Rightarrow>
          child \<in> set seen \<and> covers d data0 child \<and> cand_distance cand = d (data child) data0
          \<and> cand_metric cand = Finite (d (data child) data0)
          \<and> (\<forall>c \<in> set seen. covers d data0 c \<longrightarrow> d (data child) data0 \<le> d (data c) data0))"

definition min_increase_of ::
  "('a \<Rightarrow> 'a \<Rightarrow> 'r::{linorder,zero,one,plus,minus,uminus,abs}) \<Rightarrow> 'a \<Rightarrow> ('a, 'r) IndexItem list
     \<Rightarrow> ('a, 'r) CandidateChild \<Rightarrow> bool" where
  "min_increase_of d data0 seen cand \<longleftrightarrow>
     (case cand_node cand of
        None \<Rightarrow> cand_metric cand = Infinity \<and> (\<forall>c \<in> set seen. covers d data0 c)
      | Some child \<Rightarrow>
          child \<in> set seen \<and> \<not> covers d data0 child \<and> cand_distance cand = d (data child) data0
          \<and> cand_metric cand = Finite (d (data child) data0 - radius child)
          \<and> (\<forall>c \<in> set seen. \<not> covers d data0 c \<longrightarrow>
                 d (data child) data0 - radius child \<le> d (data c) data0 - radius c))"


text \<open>
  The checks of \<open>Node::_checkChildMetrics\<close>, \<open>_checkMinCapacity\<close> and \<open>_checkMaxCapacity\<close>,
  which \<open>mtree::_check\<close> makes at every node of the tree.
\<close>

definition checkChildMetrics ::
  "('a \<Rightarrow> 'a \<Rightarrow> 'r::{linorder,zero,one,plus,minus,uminus,abs}) \<Rightarrow> ('a, 'r) IndexItem \<Rightarrow> ('a, 'r) IndexItem \<Rightarrow> bool" where
  "checkChildMetrics d this child \<longleftrightarrow>
     distanceToParent child = d (data child) (data this)
     \<and> distanceToParent child + radius child \<le> radius this"

fun checkCapacity :: "('a, 'r) mtree \<Rightarrow> ('a, 'r) IndexItem \<Rightarrow> bool" where
  "checkCapacity mt (Entry _ _ _) = True"
| "checkCapacity mt (Node c _ _ _ cs) =
     ((case c of RootLeafNode \<Rightarrow> 1 | RootNode \<Rightarrow> 2
               | InternalNode \<Rightarrow> minNodeCapacity mt | LeafNode \<Rightarrow> minNodeCapacity mt) \<le> length cs
      \<and> length cs \<le> maxNodeCapacity mt)"

fun check_nodes :: "(('a, 'r) IndexItem \<Rightarrow> bool) \<Rightarrow> ('a, 'r) IndexItem \<Rightarrow> bool" where
  "check_nodes P (Entry k r p) = P (Entry k r p)"
| "check_nodes P (Node c k r p cs) = (P (Node c k r p cs) \<and> list_all (check_nodes P) cs)"

definition metrics_ok :: "('a, 'r::{linorder,zero,one,plus,minus,uminus,abs}) mtree \<Rightarrow> bool" where
  "metrics_ok mt \<longleftrightarrow>
     (case root mt of
        None \<Rightarrow> True
      | Some root0 \<Rightarrow>
          check_nodes (\<lambda>n. list_all (checkChildMetrics (distance_function mt) n) (children n)) root0)"

definition capacity_ok :: "('a, 'r) mtree \<Rightarrow> bool" where
  "capacity_ok mt \<longleftrightarrow>
     (case root mt of None \<Rightarrow> True | Some root0 \<Rightarrow> check_nodes (checkCapacity mt) root0)"

text \<open>The objects that the tree indexes: the data of its entries, from left to right.\<close>

fun entries :: "('a, 'r) IndexItem \<Rightarrow> 'a list" where
  "entries (Entry k _ _) = [k]"
| "entries (Node _ _ _ _ cs) = concat (map entries cs)"

definition indexed :: "('a, 'r) mtree \<Rightarrow> 'a list" where
  "indexed mt = (case root mt of None \<Rightarrow> [] | Some root0 \<Rightarrow> entries root0)"

text \<open>The number of levels of an item: 0 for an entry, 1 for a leaf.\<close>

fun depth :: "('a, 'r) IndexItem \<Rightarrow> nat" where
  "depth (Entry k r p) = 0"
| "depth (Node c k r p cs) = Suc (Max (set (0 # map depth cs)))"

text \<open>
  A node has room for one more object: the node and every node below it hold fewer than
  \<open>mx\<close> children, in key order; the children of a leaf are entries, those of another node
  are nodes, and there is at least one of them.
\<close>

fun has_room :: "nat \<Rightarrow> ('a::linorder, 'r) IndexItem \<Rightarrow> bool" where
  "has_room mx (Entry k r p) = False"
| "has_room mx (Node c k r p cs) =
     (length cs < mx \<and> sorted_wrt (<) (map data cs)
      \<and> (if is_leaf_class c then \<forall>x \<in> set cs. is_Entry x
          else cs \<noteq> [] \<and> (\<forall>x \<in> set cs. has_room mx x)))"

text \<open>A sequence of calls of the public operations \<open>add\<close> and \<open>remove\<close>.\<close>

datatype 'a operation = Add 'a | Remove 'a

fun apply_operations ::
  "nat \<Rightarrow> ('a::linorder, 'r::{linorder,zero,one,plus,minus,uminus,abs}) mtree \<Rightarrow> 'a operation list \<Rightarrow> ('a, 'r) mtree option" where
  "apply_operations n mt [] = Some mt"
| "apply_operations n mt (Add x # ops) =
     (case add n mt x of None \<Rightarrow> None | Some mt' \<Rightarrow> apply_operations n mt' ops)"
| "apply_operations n mt (Remove x # ops) =
     (case remove n mt x of None \<Rightarrow> None | Some (_, mt') \<Rightarrow> apply_operations n mt' ops)"

section \<open>Concrete inputs\<close>

text \<open>A function of two integers that is not symmetric.\<close>

definition skew :: "int \<Rightarrow> int \<Rightarrow> int" where
  "skew a b = a + 2 * b"


text \<open>The distance of two integers on the line.\<close>

definition abs_diff :: "int \<Rightarrow> int \<Rightarrow> real" where
  "abs_diff a b = real_of_int (abs (a - b))"

text \<open>A sample that always picks the first two positions.\<close>

definition first_two :: "int list \<Rightarrow> nat \<times> nat" where
  "first_two population = (0, 1)"


text \<open>A sample that picks the first and the last position.\<close>

definition first_last :: "int list \<Rightarrow> nat \<times> nat" where
  "first_last population = (0, length population - 1)"

text \<open>A sample given by a table from populations to the two positions picked.\<close>

definition sample_table :: "(int list \<times> nat \<times> nat) list \<Rightarrow> int list \<Rightarrow> nat \<times> nat" where
  "sample_table tab population = (case map_of tab population of None \<Rightarrow> (0, 1) | Some ij \<Rightarrow> ij)"

text \<open>
  Trees of integers under \<open>abs_diff\<close> with the default split function: one with capacities
  3 and 4, and one with capacities 2 and 4 for a given outcome of the random samples.
\<close>

definition tree_3_4 :: "(int, real) mtree" where
  "tree_3_4 = mtree_init 3 4 abs_diff (split_function (random_promotion first_last) balanced_partition)"

definition tree_2_4 :: "(int list \<times> nat \<times> nat) list \<Rightarrow> (int, real) mtree" where
  "tree_2_4 tab =
     mtree_init 2 4 abs_diff (split_function (random_promotion (sample_table tab)) balanced_partition)"

text \<open>
  Eleven operations, with the samples that promote 9 and 12 in the first split and 8 and 12
  in the second one.
\<close>

definition samples_11 :: "(int list \<times> nat \<times> nat) list" where
  "samples_11 = [([3, 4, 9, 11, 12], (2, 4)), ([1, 2, 3, 8, 12], (3, 4))]"

definition operations_11 :: "int operation list" where
  "operations_11 =
     [Add 9, Add 4, Add 12, Add 3, Add 11, Remove 9, Add 15, Remove 11, Add 8, Add 1, Add 2]"

text \<open>Twenty operations and two more, with the samples of their seven splits.\<close>

definition samples_22 :: "(int list \<times> nat \<times> nat) list" where
  "samples_22 =
     [([7, 17, 28, 34, 35], (3, 4)), ([7, 22, 28, 32, 34], (3, 4)), ([1, 7, 21, 28, 32], (3, 4)),
      ([1, 16, 20, 21, 28], (2, 4)), ([20, 28, 32, 34, 35], (1, 2)), ([7, 32, 33, 35, 58], (1, 3)),
      ([- 30, 1, 20, 21, 59], (0, 1))]"

definition operations_20 :: "int operation list" where
  "operations_20 =
     [Add 33, Add 17, Remove 33, Add 34, Add 28, Add 7, Add 35, Add 32, Add 22, Remove 32,
      Add 1, Add 37, Add 32, Add 21, Remove 32, Add 16, Add 33, Add 32, Add 20, Add 58]"

definition operations_22 :: "int operation list" where
  "operations_22 = operations_20 @ [Add (- 30), Add 59]"

chapter \<open>Theorems\<close>

section \<open>The cached distance function\<close>

lemma unordered_swap: "unordered (a, b) = unordered (b, a)"
  by (auto simp: unordered_def)

lemma unordered_eq_iff: "unordered (x, y) = unordered (a, b) \<longleftrightarrow> (x, y) = (a, b) \<or> (x, y) = (b, a)"
  by (auto simp: unordered_def doubleton_eq_iff)

lemma cache_of_empty: "cache_of d [] Map.empty"
  by (simp add: cache_of_def)

lemma cache_of_hit:
  assumes "cache_of d invoked cache" and "unordered (a, b) \<in> unordered ` set invoked"
  shows "\<exists>v. cache (a, b) = Some v \<and> cache (b, a) = Some v
           \<and> (\<exists>p \<in> set invoked. unordered p = unordered (a, b) \<and> v = d (fst p) (snd p))
           \<and> cached_distance_function d cache a b = (v, cache, [])"
proof -
  from assms have "cache (a, b) \<noteq> None" unfolding cache_of_def by blast
  then obtain v where v: "cache (a, b) = Some v" by blast
  with assms(1) have "cache (b, a) = Some v"
    and "\<exists>p \<in> set invoked. unordered p = unordered (a, b) \<and> v = d (fst p) (snd p)"
    unfolding cache_of_def by blast+
  with v show ?thesis by (simp add: cached_distance_function_def)
qed

lemma cache_of_miss:
  assumes "cache_of d invoked cache" and "unordered (a, b) \<notin> unordered ` set invoked"
  shows "cached_distance_function d cache a b =
           (d a b, cache((a, b) \<mapsto> d a b, (b, a) \<mapsto> d a b), [(a, b)])"
    and "cache_of d (invoked @ [(a, b)]) (cache((a, b) \<mapsto> d a b, (b, a) \<mapsto> d a b))"
proof -
  let ?c = "cache((a, b) \<mapsto> d a b, (b, a) \<mapsto> d a b)"
  from assms have n1: "cache (a, b) = None" unfolding cache_of_def by blast
  from assms(2) have "unordered (b, a) \<notin> unordered ` set invoked"
    by (simp add: unordered_swap[of b a])
  with assms(1) have n2: "cache (b, a) = None" unfolding cache_of_def by blast
  have i1: "cache_insert cache (a, b) (d a b) = cache((a, b) \<mapsto> d a b)"
    unfolding cache_insert_def n1 by simp
  have i2: "cache_insert (cache((a, b) \<mapsto> d a b)) (b, a) (d a b) = ?c"
  proof (cases "a = b")
    case True
    then show ?thesis unfolding cache_insert_def by simp
  next
    case False
    then have "(cache((a, b) \<mapsto> d a b)) (b, a) = None" using n2 by simp
    then show ?thesis unfolding cache_insert_def by simp
  qed
  show "cached_distance_function d cache a b = (d a b, ?c, [(a, b)])"
    unfolding cached_distance_function_def n1 n2 Let_def i1 i2 by simp
  have dist: "distinct (map unordered (invoked @ [(a, b)]))"
    using assms by (simp add: cache_of_def)
  have none: "?c (x, y) = None \<longleftrightarrow> unordered (x, y) \<notin> unordered ` set (invoked @ [(a, b)])" for x y
  proof (cases "unordered (x, y) = unordered (a, b)")
    case True
    then have "(x, y) = (a, b) \<or> (x, y) = (b, a)"
      using unordered_eq_iff[of x y a b] by blast
    then have "?c (x, y) \<noteq> None" by auto
    then show ?thesis using True by simp
  next
    case False
    then have "(x, y) \<noteq> (a, b)" "(x, y) \<noteq> (b, a)"
      using unordered_eq_iff[of x y a b] by blast+
    then have "?c (x, y) = cache (x, y)" by (metis fun_upd_other)
    moreover from assms(1) have "cache (x, y) = None \<longleftrightarrow> unordered (x, y) \<notin> unordered ` set invoked"
      unfolding cache_of_def by blast
    ultimately show ?thesis using False by auto
  qed
  have some: "?c (y, x) = Some v \<and>
        (\<exists>p \<in> set (invoked @ [(a, b)]). unordered p = unordered (x, y) \<and> v = d (fst p) (snd p))"
    if "?c (x, y) = Some v" for x y v
  proof (cases "unordered (x, y) = unordered (a, b)")
    case True
    then have "(x, y) = (a, b) \<or> (x, y) = (b, a)"
      using unordered_eq_iff[of x y a b] by blast
    then have "v = d a b" "?c (y, x) = Some (d a b)" using that by (auto split: if_splits)
    moreover have "unordered (a, b) = unordered (x, y)" using True by simp
    ultimately show ?thesis by auto
  next
    case False
    then have "(x, y) \<noteq> (a, b)" "(x, y) \<noteq> (b, a)"
      using unordered_eq_iff[of x y a b] by blast+
    then have eq: "?c (x, y) = cache (x, y)" "?c (y, x) = cache (y, x)"
      by (metis fun_upd_other prod.inject)+
    with that have "cache (x, y) = Some v" by simp
    with assms(1) have "cache (y, x) = Some v"
      and "\<exists>p \<in> set invoked. unordered p = unordered (x, y) \<and> v = d (fst p) (snd p)"
      unfolding cache_of_def by blast+
    then show ?thesis unfolding eq by auto
  qed
  show "cache_of d (invoked @ [(a, b)]) ?c"
    unfolding cache_of_def using dist none some by blast
qed

lemma call_sequence_cache_of:
  assumes "cache_of d invoked0 cache0"
    and "call_sequence d cache0 calls = (vs, cache, invoked)"
  shows "cache_of d (invoked0 @ invoked) cache
       \<and> unordered ` set (invoked0 @ invoked) = unordered ` (set invoked0 \<union> set calls)"
  using assms
proof (induction calls arbitrary: invoked0 cache0 vs cache invoked)
  case Nil
  then show ?case by simp
next
  case (Cons call calls)
  obtain a b where call: "call = (a, b)" by (cases call)
  show ?case
  proof (cases "unordered (a, b) \<in> unordered ` set invoked0")
    case True
    from cache_of_hit[OF Cons.prems(1) True] obtain v where
      hit: "cached_distance_function d cache0 a b = (v, cache0, [])" by blast
    obtain vs' where rest: "call_sequence d cache0 calls = (vs', cache, invoked)"
      using Cons.prems(2) hit call by (auto split: prod.splits)
    from Cons.IH[OF Cons.prems(1) rest] True call show ?thesis by auto
  next
    case False
    note miss = cache_of_miss[OF Cons.prems(1) False]
    obtain vs' invoked' where rest:
      "call_sequence d (cache0((a, b) \<mapsto> d a b, (b, a) \<mapsto> d a b)) calls = (vs', cache, invoked')"
      and inv: "invoked = (a, b) # invoked'"
      using Cons.prems(2) miss(1) call by (auto split: prod.splits)
    from Cons.IH[OF miss(2) rest] show ?thesis unfolding inv call by auto
  qed
qed

text \<open>
  Claim C9. Let any sequence of calls be made on a cached distance function that starts
  with an empty cache. Then the underlying distance function has been invoked at most
  once per unordered pair of arguments. A further call whose pair, in either ordering,
  is among the earlier calls returns the value stored for the pair under both orderings
  (the value computed by the one invocation for that pair), without an invocation and
  without a change of the cache. A further call on a new pair invokes the underlying
  function once, stores the result under both orderings and returns it.
\<close>

theorem cached_distance_function_once:
  assumes "call_sequence d Map.empty previous = (vs, cache, invoked)"
  shows "distinct (map unordered invoked) \<and>
         (if unordered (data1, data2) \<in> unordered ` set previous
          then \<exists>v. cache (data1, data2) = Some v \<and> cache (data2, data1) = Some v
                 \<and> (\<exists>p \<in> set invoked. unordered p = unordered (data1, data2) \<and> v = d (fst p) (snd p))
                 \<and> cached_distance_function d cache data1 data2 = (v, cache, [])
          else cached_distance_function d cache data1 data2 =
                 (d data1 data2,
                  cache((data1, data2) \<mapsto> d data1 data2, (data2, data1) \<mapsto> d data1 data2),
                  [(data1, data2)]))"
proof -
  from call_sequence_cache_of[OF cache_of_empty assms]
  have c: "cache_of d invoked cache" and s: "unordered ` set invoked = unordered ` set previous"
    by simp_all
  from c have "distinct (map unordered invoked)" by (simp add: cache_of_def)
  moreover have "\<exists>v. cache (data1, data2) = Some v \<and> cache (data2, data1) = Some v
                 \<and> (\<exists>p \<in> set invoked. unordered p = unordered (data1, data2) \<and> v = d (fst p) (snd p))
                 \<and> cached_distance_function d cache data1 data2 = (v, cache, [])"
    if "unordered (data1, data2) \<in> unordered ` set previous"
    using cache_of_hit[OF c] that s by simp
  moreover have "cached_distance_function d cache data1 data2 =
                 (d data1 data2,
                  cache((data1, data2) \<mapsto> d data1 data2, (data2, data1) \<mapsto> d data1 data2),
                  [(data1, data2)])"
    if "unordered (data1, data2) \<notin> unordered ` set previous"
    using cache_of_miss(1)[OF c] that s by simp
  ultimately show ?thesis by simp
qed


theorem cached_distance_function_once_witness:
  "(case call_sequence skew Map.empty [(1, 2), (2, 1), (3, 3)] of
      (vs, cache, invoked) \<Rightarrow>
         vs = [5, 5, 9] \<and> invoked = [(1, 2), (3, 3)] \<and> distinct (map unordered invoked)
         \<and> cached_distance_function skew cache 2 1 = (5, cache, [])
         \<and> cached_distance_function skew cache 4 1 =
               (6, cache((4, 1) \<mapsto> 6, (1, 4) \<mapsto> 6), [(4, 1)]))"
proof -
  obtain vs cache invoked where
    run: "call_sequence skew Map.empty [(1, 2), (2, 1), (3, 3)] = (vs, cache, invoked)"
    by (cases "call_sequence skew Map.empty [(1, 2), (2, 1), (3, 3)]")
  have vals: "vs = [5, 5, 9]" "invoked = [(1, 2), (3, 3)]"
    using run by (simp_all add: cached_distance_function_def cache_insert_def skew_def Let_def)
  have c12: "cache (1, 2) = Some 5"
    using run by (auto simp: cached_distance_function_def cache_insert_def skew_def Let_def)
  have in1: "unordered (2, 1) \<in> unordered ` set [(1, 2), (2, 1), (3::int, 3::int)]"
    by (simp add: unordered_def)
  have out1: "unordered (4, 1) \<notin> unordered ` set [(1, 2), (2, 1), (3::int, 3::int)]"
    by (auto simp: unordered_def doubleton_eq_iff)
  from cached_distance_function_once[OF run, of 2 1] in1
  obtain v where "cache (2, 1) = Some v" "cache (1, 2) = Some v"
      "cached_distance_function skew cache 2 1 = (v, cache, [])"
      and d: "distinct (map unordered invoked)" by auto
  with c12 have hit: "cached_distance_function skew cache 2 1 = (5, cache, [])" by simp
  from cached_distance_function_once[OF run, of 4 1] out1
  have miss: "cached_distance_function skew cache 4 1 =
               (6, cache((4, 1) \<mapsto> 6, (1, 4) \<mapsto> 6), [(4, 1)])"
    by (simp add: skew_def)
  show ?thesis unfolding run using vals d hit miss by simp
qed

section \<open>The choice of the child during insertion\<close>

lemma candidates_step_nearest:
  assumes "nearest_of d data0 seen nd" and "covers d data0 child"
  shows "nearest_of d data0 (seen @ [child])
           (if less_ext (d (data child) data0) (cand_metric nd)
            then (Some child, d (data child) data0, Finite (d (data child) data0)) else nd)"
proof (cases "cand_node nd")
  case None
  with assms show ?thesis
    by (auto simp: nearest_of_def cand_node_def cand_metric_def cand_distance_def)
next
  case (Some old)
  with assms show ?thesis
    by (auto simp: nearest_of_def cand_node_def cand_metric_def cand_distance_def)
qed

lemma candidates_step_nearest_skip:
  assumes "nearest_of d data0 seen nd" and "\<not> covers d data0 child"
  shows "nearest_of d data0 (seen @ [child]) nd"
  using assms by (auto simp: nearest_of_def split: option.splits)

lemma candidates_step_increase:
  assumes "min_increase_of d data0 seen mi" and "\<not> covers d data0 child"
  shows "min_increase_of d data0 (seen @ [child])
           (if less_ext (d (data child) data0 - radius child) (cand_metric mi)
            then (Some child, d (data child) data0, Finite (d (data child) data0 - radius child)) else mi)"
proof (cases "cand_node mi")
  case None
  with assms show ?thesis
    by (auto simp: min_increase_of_def cand_node_def cand_metric_def cand_distance_def)
next
  case (Some old)
  with assms show ?thesis
    by (auto simp: min_increase_of_def cand_node_def cand_metric_def cand_distance_def)
qed

lemma candidates_step_increase_skip:
  assumes "min_increase_of d data0 seen mi" and "covers d data0 child"
  shows "min_increase_of d data0 (seen @ [child]) mi"
  using assms by (auto simp: min_increase_of_def split: option.splits)

lemma candidates_scan:
  assumes "min_increase_of d data0 seen mi" and "nearest_of d data0 seen nd"
    and "\<forall>c \<in> set cs. \<not> is_Entry c"
  shows "\<exists>mi' nd'. candidates d data0 cs mi nd = Some (mi', nd')
           \<and> min_increase_of d data0 (seen @ cs) mi' \<and> nearest_of d data0 (seen @ cs) nd'"
  using assms
proof (induction cs arbitrary: seen mi nd)
  case Nil
  then show ?case by simp
next
  case (Cons child rest)
  have rest: "\<forall>c \<in> set rest. \<not> is_Entry c" and node: "\<not> is_Entry child"
    using Cons.prems(3) by simp_all
  show ?case
  proof (cases "covers d data0 child")
    case True
    then have le: "\<not> d (data child) data0 > radius child" by (simp add: covers_def)
    let ?nd = "if less_ext (d (data child) data0) (cand_metric nd)
            then (Some child, d (data child) data0, Finite (d (data child) data0)) else nd"
    from Cons.IH[OF candidates_step_increase_skip[OF Cons.prems(1) True]
        candidates_step_nearest[OF Cons.prems(2) True] rest]
    obtain mi' nd' where "candidates d data0 rest mi ?nd = Some (mi', nd')"
      "min_increase_of d data0 ((seen @ [child]) @ rest) mi'"
      "nearest_of d data0 ((seen @ [child]) @ rest) nd'" by blast
    with node le show ?thesis
      by - (rule exI[of _ mi'], rule exI[of _ nd'], auto simp: Let_def split: if_splits)
  next
    case False
    then have gt: "d (data child) data0 > radius child" by (simp add: covers_def)
    let ?mi = "if less_ext (d (data child) data0 - radius child) (cand_metric mi)
            then (Some child, d (data child) data0, Finite (d (data child) data0 - radius child)) else mi"
    from Cons.IH[OF candidates_step_increase[OF Cons.prems(1) False]
        candidates_step_nearest_skip[OF Cons.prems(2) False] rest]
    obtain mi' nd' where "candidates d data0 rest ?mi nd = Some (mi', nd')"
      "min_increase_of d data0 ((seen @ [child]) @ rest) mi'"
      "nearest_of d data0 ((seen @ [child]) @ rest) nd'" by blast
    with node gt show ?thesis
      by - (rule exI[of _ mi'], rule exI[of _ nd'], auto simp: Let_def split: if_splits)
  qed
qed

lemma choose_child_correct:
  assumes "cs \<noteq> []" and "\<forall>c \<in> set cs. \<not> is_Entry c"
  shows "\<exists>child m. choose_child d data0 cs = Some (Some child, d (data child) data0, m)
           \<and> child \<in> set cs
           \<and> (if \<exists>c \<in> set cs. covers d data0 c
               then covers d data0 child
                    \<and> (\<forall>c \<in> set cs. covers d data0 c \<longrightarrow> d (data child) data0 \<le> d (data c) data0)
               else \<forall>c \<in> set cs. d (data child) data0 - radius child \<le> d (data c) data0 - radius c)"
proof -
  have "min_increase_of d data0 [] no_candidate" "nearest_of d data0 [] no_candidate"
    by (simp_all add: min_increase_of_def nearest_of_def no_candidate_def cand_node_def cand_metric_def)
  from candidates_scan[OF this assms(2)]
  obtain mi nd where scan: "candidates d data0 cs no_candidate no_candidate = Some (mi, nd)"
    and mi: "min_increase_of d data0 cs mi" and nd: "nearest_of d data0 cs nd" by auto
  show ?thesis
  proof (cases "cand_node nd")
    case (Some child)
    with nd have "child \<in> set cs" "covers d data0 child" "cand_distance nd = d (data child) data0"
      "\<forall>c \<in> set cs. covers d data0 c \<longrightarrow> d (data child) data0 \<le> d (data c) data0"
      by (auto simp: nearest_of_def)
    moreover have "choose_child d data0 cs = Some nd"
      using scan Some by (simp add: choose_child_def)
    moreover have "nd = (Some child, cand_distance nd, cand_metric nd)"
      using Some by (simp add: cand_node_def cand_distance_def cand_metric_def prod_eq_iff)
    ultimately show ?thesis by (metis (no_types, lifting))
  next
    case None
    with nd have nocover: "\<forall>c \<in> set cs. \<not> covers d data0 c" by (auto simp: nearest_of_def)
    with assms(1) have "\<not> (\<forall>c \<in> set cs. covers d data0 c)" by (cases cs) auto
    with mi obtain child where child: "cand_node mi = Some child"
      by (cases "cand_node mi") (auto simp: min_increase_of_def)
    with mi have "child \<in> set cs" "cand_distance mi = d (data child) data0"
      "\<forall>c \<in> set cs. \<not> covers d data0 c \<longrightarrow>
          d (data child) data0 - radius child \<le> d (data c) data0 - radius c"
      by (auto simp: min_increase_of_def)
    moreover have "choose_child d data0 cs = Some mi"
      using scan None by (simp add: choose_child_def)
    moreover have "mi = (Some child, cand_distance mi, cand_metric mi)"
      using child by (simp add: cand_node_def cand_distance_def cand_metric_def prod_eq_iff)
    ultimately show ?thesis using nocover by (metis (no_types, lifting))
  qed
qed

text \<open>storing a child in a children map that is in key order\<close>

lemma map_store_length: "length (map_store c cs) \<le> Suc (length cs)"
  by (induction cs) auto

lemma filter_absent_key: "k \<notin> data ` set cs \<Longrightarrow> filter_mset (\<lambda>x. data x \<noteq> k) (mset cs) = mset cs"
  by (induction cs) auto

lemma map_store_mset:
  "sorted_wrt (<) (map data cs) \<Longrightarrow>
     mset (map_store c cs) = add_mset c (filter_mset (\<lambda>x. data x \<noteq> data c) (mset cs))"
proof (induction cs)
  case Nil
  then show ?case by simp
next
  case (Cons x xs)
  have tail: "\<forall>y \<in> set xs. data x < data y" and sorted_xs: "sorted_wrt (<) (map data xs)"
    using Cons.prems by simp_all
  consider "data c < data x" | "data c = data x" | "data x < data c" by (meson less_linear)
  then show ?case
  proof cases
    case 1
    then have "data c \<notin> data ` set (x # xs)" using tail by force
    from filter_absent_key[OF this] 1 show ?thesis by simp
  next
    case 2
    then have "data c \<notin> data ` set xs" using tail by force
    from filter_absent_key[OF this] 2 show ?thesis by simp
  next
    case 3
    then have "\<not> data c < data x" "data c \<noteq> data x" "data x \<noteq> data c" by auto
    with Cons.IH[OF sorted_xs] show ?thesis by simp
  qed
qed

lemma map_store_set:
  assumes "sorted_wrt (<) (map data cs)"
  shows "set (map_store c cs) = insert c {x \<in> set cs. data x \<noteq> data c}"
proof -
  have "set_mset (mset (map_store c cs))
      = set_mset (add_mset c (filter_mset (\<lambda>x. data x \<noteq> data c) (mset cs)))"
    by (rule arg_cong[OF map_store_mset[OF assms]])
  then show ?thesis by simp
qed

lemma other_keys:
  fixes cs :: "('a::linorder, 'r) IndexItem list"
  assumes "sorted_wrt (<) (map data cs)" and "c0 \<in> set cs"
  shows "{x \<in> set cs. data x \<noteq> data c0} = set cs - {c0}"
proof -
  have "distinct (map data cs)" using assms(1) by (simp add: strict_sorted_iff)
  then have "inj_on data (set cs)" by (simp add: distinct_map)
  with assms(2) show ?thesis by (auto dest: inj_onD)
qed

lemma has_room_node: "has_room mx it \<Longrightarrow> \<not> is_Entry it"
  by (cases it) simp_all

lemma depth_child: "x \<in> set cs \<Longrightarrow> depth x \<le> Max (set (0 # map depth cs))"
  by (intro Max_ge) auto

lemma checkMaxCapacity_room:
  "length (children this) \<le> maxNodeCapacity mt \<Longrightarrow> checkMaxCapacity (Suc n) mt this = Returned this"
  by simp

lemma entries_node: "\<not> is_Entry it \<Longrightarrow> set (entries it) = (\<Union>x \<in> set (children it). set (entries x))"
  by (cases it) simp_all

lemma entries_entry: "is_Entry x \<Longrightarrow> set (entries x) = {data x}"
  by (cases x) simp_all

text \<open>
  An insertion into a node that has room returns, and the objects below the node are
  then the objects that were below it and the new one.
\<close>

lemma addData_room:
  "has_room (maxNodeCapacity mt) it \<Longrightarrow> 2 * depth it \<le> n
     \<Longrightarrow> \<exists>it'. addData n mt it data0 dst = Returned it' \<and> data it' = data it \<and> \<not> is_Entry it'
            \<and> set (entries it') = insert data0 (set (entries it))"
proof (induction it arbitrary: n dst)
  case (Entry k r p)
  then show ?case by simp
next
  case (Node c k r p cs)
  let ?N = "Node c k r p cs"
  have len: "length cs < maxNodeCapacity mt" and srt: "sorted_wrt (<) (map data cs)"
    using Node.prems(1) by simp_all
  from Node.prems(2) have "n = Suc (Suc (n - 2))" "2 * Max (set (0 # map depth cs)) \<le> n - 2"
    by simp_all
  then obtain m where n: "n = Suc (Suc m)" and m: "2 * Max (set (0 # map depth cs)) \<le> m" by blast
  have step: "addData (Suc (Suc m)) mt ?N data0 dst = Returned N1"
    if "doAddData (Suc m) mt ?N data0 dst = Returned N1" "length (children N1) \<le> maxNodeCapacity mt" for N1
  proof -
    have "addData (Suc (Suc m)) mt ?N data0 dst
        = on_returned (doAddData (Suc m) mt ?N data0 dst) (\<lambda>this'. checkMaxCapacity (Suc m) mt this')"
      by (rule addData.simps(2))
    also have "\<dots> = checkMaxCapacity (Suc m) mt N1" unfolding that(1) by (simp add: on_returned_def)
    also have "\<dots> = Returned N1" using that(2) by (rule checkMaxCapacity_room)
    finally show ?thesis .
  qed
  show ?case
  proof (cases "is_leaf_class c")
    case True
    then have ents: "\<forall>x \<in> set cs. is_Entry x" using Node.prems(1) by simp
    let ?e = "set_distanceToParent dst (new_Entry data0 :: ('a, 'b) IndexItem)"
    let ?N1 = "attach ?N (new_Entry data0) dst"
    have e: "is_Entry ?e" "data ?e = data0" by (simp_all add: new_Entry_def)
    have d1: "doAddData (Suc m) mt ?N data0 dst = Returned ?N1" using True by simp
    have cs1: "children ?N1 = map_store ?e cs" by (simp add: attach_def Let_def updateRadius_def)
    have "length (children ?N1) \<le> maxNodeCapacity mt"
      using map_store_length[of ?e cs] len unfolding cs1 by simp
    from step[OF d1 this] have r: "addData n mt ?N data0 dst = Returned ?N1" unfolding n .
    have hd: "data ?N1 = k" "\<not> is_Entry ?N1" by (simp_all add: attach_def Let_def updateRadius_def)
    have "set (entries ?N1) = (\<Union>x \<in> set (map_store ?e cs). set (entries x))"
      using entries_node[OF hd(2)] cs1 by simp
    also have "\<dots> = (\<Union>x \<in> insert ?e {x \<in> set cs. data x \<noteq> data0}. set (entries x))"
      using map_store_set[OF srt, of ?e] e(2) by simp
    also have "\<dots> = insert data0 (\<Union>x \<in> set cs. set (entries x))"
      using ents e by (auto simp: entries_entry)
    also have "\<dots> = insert data0 (set (entries ?N))" by simp
    finally show ?thesis using r hd by simp
  next
    case False
    then have ne: "cs \<noteq> []" and room: "\<forall>x \<in> set cs. has_room (maxNodeCapacity mt) x"
      using Node.prems(1) by simp_all
    have nodes: "\<forall>x \<in> set cs. \<not> is_Entry x" using room has_room_node by blast
    from choose_child_correct[OF ne nodes, of "distance_function mt" data0]
    obtain child mm where
      chosen: "choose_child (distance_function mt) data0 cs
                 = Some (Some child, distance_function mt (data child) data0, mm)"
      and mem: "child \<in> set cs" by blast
    have "2 * depth child \<le> m" using depth_child[OF mem] m by simp
    from Node.IH[OF mem _ this, of "distance_function mt (data child) data0"] room mem
    obtain child' where c': "addData m mt child data0 (distance_function mt (data child) data0) = Returned child'"
      "data child' = data child" "\<not> is_Entry child'"
      "set (entries child') = insert data0 (set (entries child))" by auto
    let ?N1 = "updateRadius (set_children (map_store child' cs) ?N) child'"
    have d1: "doAddData (Suc m) mt ?N data0 dst = Returned ?N1"
      using False chosen c'(1) by (simp add: cand_node_def cand_distance_def after_child_addData_def)
    have cs1: "children ?N1 = map_store child' cs" by (simp add: updateRadius_def)
    have "length (children ?N1) \<le> maxNodeCapacity mt"
      using map_store_length[of child' cs] len unfolding cs1 by simp
    from step[OF d1 this] have r: "addData n mt ?N data0 dst = Returned ?N1" unfolding n .
    have hd: "data ?N1 = k" "\<not> is_Entry ?N1" by (simp_all add: updateRadius_def)
    have "set (map_store child' cs) = insert child' (set cs - {child})"
      using map_store_set[OF srt, of child'] other_keys[OF srt mem] c'(2) by simp
    then have "set (entries ?N1) = (\<Union>x \<in> insert child' (set cs - {child}). set (entries x))"
      using entries_node[OF hd(2)] cs1 by simp
    also have "\<dots> = insert data0 (\<Union>x \<in> set cs. set (entries x))"
      using c'(4) mem by auto
    also have "\<dots> = insert data0 (set (entries ?N))" by simp
    finally show ?thesis using r hd by simp
  qed
qed

text \<open>
  Claim C7. When \<open>doAddData\<close> runs on a non-leaf node with at least one child, it
  passes the new object to one of the children, by \<open>addData\<close> with the distance from the
  routing object of that child to the new object. If some child covers the new object
  (the distance from its routing object is at most its radius), the child that is
  descended into covers it and its distance is least among the covering children;
  otherwise the child that is descended into minimises the distance minus the radius,
  as the arithmetic of the distances computes it. What \<open>doAddData\<close> returns is what the
  handler \<open>after_child_addData\<close> makes of the outcome of that call. When the chosen
  child has room, so that no node on the way splits, the call returns: the new object has
  joined the objects below the chosen child, and \<open>doAddData\<close> returns the node with that
  child, and no other, replaced by its new state.
\<close>

theorem doAddData_descends_into_chosen_child:
  assumes "\<not> is_Entry this" and "\<not> is_leaf_class (node_class this)"
    and "children this \<noteq> []" and "\<forall>c \<in> set (children this). \<not> is_Entry c"
  shows "\<exists>child. child \<in> set (children this)
           \<and> (if \<exists>c \<in> set (children this). covers (distance_function mt) data0 c
               then covers (distance_function mt) data0 child
                    \<and> (\<forall>c \<in> set (children this). covers (distance_function mt) data0 c \<longrightarrow>
                           distance_function mt (data child) data0 \<le> distance_function mt (data c) data0)
               else \<forall>c \<in> set (children this).
                      distance_function mt (data child) data0 - radius child
                        \<le> distance_function mt (data c) data0 - radius c)
           \<and> doAddData (Suc n) mt this data0 distance =
               after_child_addData n mt this child
                 (addData n mt child data0 (distance_function mt (data child) data0))
           \<and> (has_room (maxNodeCapacity mt) child \<and> 2 * depth child \<le> n \<longrightarrow>
                 (\<exists>child'. addData n mt child data0 (distance_function mt (data child) data0)
                              = Returned child'
                    \<and> data child' = data child
                    \<and> set (entries child') = insert data0 (set (entries child))
                    \<and> doAddData (Suc n) mt this data0 distance =
                        Returned (updateRadius (set_children (map_store child' (children this)) this)
                                    child')))"
proof -
  from choose_child_correct[OF assms(3,4), of "distance_function mt" data0]
  obtain child m where
    chosen: "choose_child (distance_function mt) data0 (children this)
               = Some (Some child, distance_function mt (data child) data0, m)"
    and mem: "child \<in> set (children this)"
    and best: "if \<exists>c \<in> set (children this). covers (distance_function mt) data0 c
               then covers (distance_function mt) data0 child
                    \<and> (\<forall>c \<in> set (children this). covers (distance_function mt) data0 c \<longrightarrow>
                           distance_function mt (data child) data0 \<le> distance_function mt (data c) data0)
               else \<forall>c \<in> set (children this).
                      distance_function mt (data child) data0 - radius child
                        \<le> distance_function mt (data c) data0 - radius c"
    by blast
  have eq: "doAddData (Suc n) mt this data0 distance =
          after_child_addData n mt this child
            (addData n mt child data0 (distance_function mt (data child) data0))"
    using assms(1,2) chosen by (simp add: cand_node_def cand_distance_def)
  have "\<exists>child'. addData n mt child data0 (distance_function mt (data child) data0) = Returned child'
          \<and> data child' = data child
          \<and> set (entries child') = insert data0 (set (entries child))
          \<and> doAddData (Suc n) mt this data0 distance =
               Returned (updateRadius (set_children (map_store child' (children this)) this) child')"
    if "has_room (maxNodeCapacity mt) child" "2 * depth child \<le> n"
  proof -
    from addData_room[OF that, of data0 "distance_function mt (data child) data0"]
    obtain child' where c': "addData n mt child data0 (distance_function mt (data child) data0)
                               = Returned child'"
      "data child' = data child" "set (entries child') = insert data0 (set (entries child))"
      by blast
    have "doAddData (Suc n) mt this data0 distance =
            Returned (updateRadius (set_children (map_store child' (children this)) this) child')"
      unfolding eq c'(1) by (simp add: after_child_addData_def)
    with c' show ?thesis by blast
  qed
  with mem best eq show ?thesis by blast
qed

text \<open>
  An instance: a root with the two leaves at 2 (radius 3) and 8 (radius 1) receives the
  object 4, which only the first leaf covers; the entry 4 is stored in that leaf.
\<close>

theorem doAddData_descends_into_chosen_child_witness:
  "doAddData (Suc 3)
     (mtree_init 2 3 abs_diff (split_function (random_promotion first_two) balanced_partition))
     (Node RootNode 0 9 (- 1)
        [Node LeafNode 2 3 2 [Entry 2 0 0, Entry 5 0 3],
         Node LeafNode 8 1 8 [Entry 8 0 0, Entry 9 0 1]]) 4 4
   = Returned (Node RootNode 0 9 (- 1)
        [Node LeafNode 2 3 2 [Entry 2 0 0, Entry 4 0 2, Entry 5 0 3],
         Node LeafNode 8 1 8 [Entry 8 0 0, Entry 9 0 1]])"
proof -
  let ?mt = "mtree_init 2 3 abs_diff (split_function (random_promotion first_two) balanced_partition)"
  let ?leaf2 = "Node LeafNode 2 3 2 [Entry 2 0 0, Entry 5 0 3] :: (int, real) IndexItem"
  let ?leaf8 = "Node LeafNode 8 1 8 [Entry 8 0 0, Entry 9 0 1] :: (int, real) IndexItem"
  let ?node = "Node RootNode 0 9 (- 1) [?leaf2, ?leaf8] :: (int, real) IndexItem"
  have h1: "\<not> is_Entry ?node" by simp
  have h2: "\<not> is_leaf_class (node_class ?node)" by (simp add: is_leaf_class_def)
  have h3: "children ?node \<noteq> []" by simp
  have h4: "\<forall>c \<in> set (children ?node). \<not> is_Entry c" by simp
  have dm: "distance_function ?mt = abs_diff" by (simp add: mtree_init_def)
  have mx: "maxNodeCapacity ?mt = 3" unfolding mtree_init_code by simp
  from doAddData_descends_into_chosen_child[OF h1 h2 h3 h4, of ?mt 4 3 4]
  obtain child where mem: "child \<in> set (children ?node)"
    and best: "if \<exists>c \<in> set (children ?node). covers abs_diff 4 c
               then covers abs_diff 4 child
                    \<and> (\<forall>c \<in> set (children ?node). covers abs_diff 4 c \<longrightarrow>
                           abs_diff (data child) 4 \<le> abs_diff (data c) 4)
               else \<forall>c \<in> set (children ?node).
                      abs_diff (data child) 4 - radius child \<le> abs_diff (data c) 4 - radius c"
    and room: "has_room 3 child \<and> 2 * depth child \<le> 3 \<longrightarrow>
                 (\<exists>child'. addData 3 ?mt child 4 (abs_diff (data child) 4) = Returned child'
                    \<and> data child' = data child
                    \<and> set (entries child') = insert 4 (set (entries child))
                    \<and> doAddData (Suc 3) ?mt ?node 4 4 =
                        Returned (updateRadius (set_children (map_store child' (children ?node)) ?node)
                                    child'))"
    unfolding dm mx by blast
  have "\<exists>c \<in> set (children ?node). covers abs_diff 4 c"
    by (simp add: covers_def abs_diff_def)
  with best have "covers abs_diff 4 child" by simp
  moreover have "\<not> covers abs_diff 4 ?leaf8" by (simp add: covers_def abs_diff_def)
  ultimately have child: "child = ?leaf2" using mem by auto
  have "has_room 3 ?leaf2" by (simp add: is_leaf_class_def)
  moreover have "2 * depth ?leaf2 \<le> 3" by simp
  ultimately obtain child' where
    c': "addData 3 ?mt ?leaf2 4 (abs_diff 2 4) = Returned child'"
    and res: "doAddData (Suc 3) ?mt ?node 4 4 =
                Returned (updateRadius (set_children (map_store child' (children ?node)) ?node) child')"
    using room unfolding child by auto
  have "addData 3 ?mt ?leaf2 4 (abs_diff 2 4) = Returned (Node LeafNode 2 3 2 [Entry 2 0 0, Entry 4 0 2, Entry 5 0 3])"
    by code_simp
  with c' have "child' = Node LeafNode 2 3 2 [Entry 2 0 0, Entry 4 0 2, Entry 5 0 3]" by simp
  with res show ?thesis by (simp add: updateRadius_def)
qed

section \<open>The default split function\<close>










section \<open>Queries with limit 0\<close>

lemma iterator_equal_end: "iterator_equal it end_iterator \<longleftrightarrow> isEnd it"
  by (simp add: iterator_equal_def end_iterator_def)

text \<open>
  Claim C10. For every tree, empty or not, every query object and every range, the
  query with limit 0 has no results: the iterator returned by \<open>begin()\<close> is equal to
  \<open>end()\<close>, and collecting the results gives the empty sequence.
\<close>

theorem limit_zero_no_results:
  "\<exists>it. begin_iterator (get_nearest mt query_data range0 0) = Some it
        \<and> iterator_equal it end_iterator
        \<and> results (get_nearest mt query_data range0 0) = Some []"
proof (cases "root mt")
  case None
  then show ?thesis
    by (simp add: begin_iterator_def get_nearest_def results_def iterator_equal_end collect.simps)
next
  case (Some root0)
  then show ?thesis
    by (simp add: begin_iterator_def get_nearest_def results_def iterator_equal_end collect.simps
        fetchNext_def Let_def)
qed

text \<open>An instance: a tree that holds the one object 7, asked for the neighbours of 5.\<close>

theorem limit_zero_no_results_witness:
  "\<exists>it. begin_iterator
          (get_nearest
             ((mtree_init 2 3 abs_diff (split_function (random_promotion first_two) balanced_partition))
                \<lparr> root := Some (Node RootLeafNode 7 0 (- 1) [Entry 7 0 0]) \<rparr>)
             5 Infinity 0) = Some it
        \<and> isEnd it
        \<and> results
          (get_nearest
             ((mtree_init 2 3 abs_diff (split_function (random_promotion first_two) balanced_partition))
                \<lparr> root := Some (Node RootLeafNode 7 0 (- 1) [Entry 7 0 0]) \<rparr>)
             5 Infinity 0) = Some []"
  using limit_zero_no_results[of
      "(mtree_init 2 3 abs_diff (split_function (random_promotion first_two) balanced_partition))
                \<lparr> root := Some (Node RootLeafNode 7 0 (- 1) [Entry 7 0 0]) \<rparr>" 5 Infinity]
  by (simp add: iterator_equal_end)

section \<open>The metric invariant after a merge of two children\<close>

text \<open>
  Claim C3 fails on the code. In a tree with capacities 2 and 4, the last of the eleven
  operations splits the leaf with routing object 12 into leaves with routing objects 8
  and 12; the root already has a child with routing object 12, so
  \<open>NonLeafNodeTrait::addChild\<close> moves the children of the new leaf into the existing one,
  which does not overflow, and leaves the radius of the root as it was. The child with
  routing object 12 then has distance 3 to its parent and radius 10, and the root has
  radius 11.
\<close>

theorem add_merge_breaks_radius_bound:
  "map_option (\<lambda>mt. (root mt, metrics_ok mt))
     (apply_operations 40 (tree_2_4 samples_11) operations_11)
   = Some (Some (Node RootNode 9 11 (- 1)
                  [Node LeafNode 8 7 1 [Entry 1 0 7, Entry 3 0 5, Entry 8 0 0],
                   Node LeafNode 12 10 3 [Entry 2 0 10, Entry 4 0 8, Entry 12 0 0, Entry 15 0 3]]),
           False)"
  by code_simp

section \<open>The capacity bounds after a split\<close>

text \<open>
  Claim C4 fails on the code. With capacities 3 and 4 the fifth insertion splits the root
  leaf of five entries into leaves of three and two entries, and two is less than the
  minimum capacity.
\<close>

theorem split_leaves_node_under_capacity:
  "map_option (\<lambda>mt. (root mt, capacity_ok mt))
     (apply_operations 40 tree_3_4 [Add 1, Add 2, Add 3, Add 4, Add 5])
   = Some (Some (Node RootNode 1 5 (- 1)
                  [Node LeafNode 1 2 0 [Entry 1 0 0, Entry 2 0 1, Entry 3 0 2],
                   Node LeafNode 5 1 4 [Entry 4 0 1, Entry 5 0 0]]),
           False)"
  by code_simp

section \<open>Removal of an indexed object\<close>

text \<open>
  Claim C5 fails on the code. After the twenty operations the tree indexes 58, in a leaf
  at distance 26 of the internal node with routing object 32, whose radius is 25;
  \<open>remove\<close> does not descend into that node and returns false.
\<close>

theorem remove_misses_indexed_object:
  "map_option (\<lambda>mt. (root mt, indexed mt, map_option fst (remove 40 mt 58)))
     (apply_operations 40 (tree_2_4 samples_22) operations_20)
   = Some (Some (Node RootNode 33 32 (- 1)
                  [Node InternalNode 28 27 5
                    [Node LeafNode 20 19 8 [Entry 1 0 19, Entry 20 0 0, Entry 21 0 1],
                     Node LeafNode 28 12 0 [Entry 16 0 12, Entry 28 0 0],
                     Node LeafNode 34 12 6 [Entry 22 0 12, Entry 34 0 0]],
                   Node InternalNode 32 25 1
                    [Node LeafNode 32 25 0 [Entry 7 0 25, Entry 32 0 0, Entry 33 0 1],
                     Node LeafNode 35 23 3
                      [Entry 17 0 18, Entry 35 0 0, Entry 37 0 2, Entry 58 0 23]]]),
           [1, 20, 21, 16, 28, 22, 34, 7, 32, 33, 17, 35, 37, 58],
           Some False)"
  by code_simp

section \<open>The order of the results of a query\<close>

text \<open>
  Claim C1 fails on the code. After the twenty-two operations the tree indexes sixteen
  objects, 58 and 59 among them; the query for the sixteen nearest neighbours of 58 with
  no bound on the distance yields 59, at distance 1, before 58, at distance 0.
\<close>

theorem nearest_all_out_of_order:
  "map_option (\<lambda>mt. (length (indexed mt), results (get_nearest mt 58 Infinity 16)))
     (apply_operations 40 (tree_2_4 samples_22) operations_22)
   = Some (16,
           Some [(59, 1), (58, 0), (37, 21), (35, 23), (34, 24), (33, 25), (32, 26), (28, 30),
                 (22, 36), (21, 37), (20, 38), (17, 41), (16, 42), (7, 51), (1, 57), (- 30, 88)])"
  by code_simp

text \<open>
  Claim C2 fails on the code. On the same tree the query for the two nearest neighbours of
  58 within distance 3 yields the distances 1 and 0, in this order.
\<close>

theorem nearest_two_out_of_order:
  "map_option (\<lambda>mt. results (get_nearest mt 58 (Finite 3) 2))
     (apply_operations 40 (tree_2_4 samples_22) operations_22)
   = Some (Some [(59, 1), (58, 0)])"
  by code_simp

end
